theory Spec2Isabelle
  imports Main
begin

section \<open>The cancel command of Pavilion (\<open>plugins/commands/cancel.py\<close>)\<close>

text \<open>
  \<open>CancelCommand.run\<close> resolves the identifiers given on the command line into test run
  ids, kills the process group of every series named, and asks the scheduler of every run
  that is RUNNING or SCHEDULED to cancel it. The command reads and writes the working
  directory, prints to two streams and calls the operating system; the model makes all of
  that explicit: what the command only reads is the record \<open>env\<close>, what it changes
  is the record \<open>st\<close>, and every early \<open>return\<close> and every exception that
  leaves \<open>run\<close> is a value of \<open>exit\<close>.
\<close>

subsection \<open>Status files\<close>

text \<open>
  Modelled from the spec: \<open>pavilion.status_file\<close> (\<open>STATES\<close>, the status file
  with \<open>current\<close> and \<open>set\<close>) is not among the sources. The states are the
  closed enumeration of the data model; a status file holds at least one entry, so it is
  its first entry and the entries appended since.
\<close>

datatype STATES = CREATED | SCHEDULED | RUNNING | COMPLETE | CANCELLED | ERROR

record status_info =
  state :: STATES
  note_str :: string
  when_ts :: nat

datatype status_file = Status_file status_info "status_info list"

fun entries :: "status_file \<Rightarrow> status_info list" where
  "entries (Status_file e es) = e # es"

definition current :: "status_file \<Rightarrow> status_info" where
  "current sf = last (entries sf)"

definition terminal :: "STATES \<Rightarrow> bool" where
  "terminal x = (x = COMPLETE \<or> x = CANCELLED \<or> x = ERROR)"

datatype transition_error = InvalidTransition

fun append_entry :: "status_file \<Rightarrow> status_info \<Rightarrow> status_file" where
  "append_entry (Status_file e es) x = Status_file e (es @ [x])"

text \<open>
  Modelled from the spec: \<open>set\<close> appends one entry with the current time; on a
  status file whose current state is terminal it fails with \<open>InvalidTransition\<close>,
  unless the state given is that same terminal state, which changes nothing.
\<close>

definition status_set :: "status_file \<Rightarrow> STATES \<Rightarrow> string \<Rightarrow> nat \<Rightarrow> transition_error + status_file" where
  "status_set sf x n t =
     (if terminal (state (current sf)) then
        (if x = state (current sf) then Inr sf else Inl InvalidTransition)
      else Inr (append_entry sf \<lparr>state = x, note_str = n, when_ts = t\<rparr>))"

subsection \<open>Test runs, schedulers, series\<close>

text \<open>
  Modelled from the spec: \<open>pavilion.test_run\<close> (\<open>TestRun\<close>, \<open>TestRunError\<close>) is
  not among the sources. A test run is what the command uses of it: the name of its
  scheduler, its status file and the completion marker that \<open>set_run_complete\<close> sets.
  \<open>TestRun.load\<close> reads a run by its id and raises \<open>TestRunError\<close> when there is
  none: the runs are a map from ids, and the error is the key that is not there.
\<close>

record test_run =
  scheduler :: string
  status :: status_file
  run_complete :: bool

definition set_run_complete :: "test_run \<Rightarrow> test_run" where
  "set_run_complete test = test\<lparr>run_complete := True\<rparr>"

text \<open>
  A scheduler plugin is what \<open>cancel_job\<close> answers for a run: the state and the note of
  a \<open>StatusInfo\<close>. \<open>schedulers.get_plugin\<close> is a map from names; a name that is not
  registered raises \<open>SchedulerPluginError\<close>, which \<open>run\<close> does not catch.
\<close>

type_synonym sched_plugin = "int \<Rightarrow> test_run \<Rightarrow> STATES \<times> string"

text \<open>
  The two exceptions that \<open>run\<close> catches around \<open>TestSeries.get_pgid\<close> and
  \<open>TestSeries.from_id\<close>, each with its message.
\<close>

datatype series_error = TestSeriesError string | ValueError string

text \<open>
  \<open>os.killpg\<close> either signals the group, or raises \<open>ProcessLookupError\<close> (no such
  group), or raises another \<open>OSError\<close> (the group belongs to someone else).
\<close>

datatype kill_result = Signalled | ProcessLookupError | PermissionError

text \<open>An entry of \<open>working_dir/test_runs\<close>, as \<open>iterdir\<close> and \<open>stat\<close> show it.\<close>

record dir_entry =
  name :: string
  st_uid :: nat
  has_RUN_COMPLETE :: bool

record env =
  euid :: nat
  test_runs_dir :: "dir_entry list"
  load_user_series_id :: "string option"
  get_pgid :: "string \<Rightarrow> series_error + int option"
  from_id_tests :: "string \<Rightarrow> series_error + int list"
  killpg :: "int \<Rightarrow> kill_result"
  get_plugin :: "string \<Rightarrow> sched_plugin option"
  clock :: nat

subsection \<open>What the command prints and does\<close>

text \<open>
  One constructor for each \<open>output.fprint\<close> of \<open>run\<close>, with the values formatted
  into the message, and one for \<open>print_from_tests\<close>, with the runs it is given and
  the \<open>json\<close> flag.
\<close>

datatype message =
    Series_not_found string string
  | Series_not_valid string string
  | Killed_process int string
  | Unable_to_kill string int
  | Test_not_valid string
  | Test_cancelled int
  | Test_could_not_be_cancelled int STATES
  | Test_cannot_be_found int
  | Statuses "int list" bool

text \<open>The calls that leave the process: a signal to a process group, a scheduler's cancel.\<close>

datatype call = Killpg int | Cancel_job string int

record st =
  runs :: "int \<Rightarrow> test_run option"
  printed :: "message list"
  calls :: "call list"

text \<open>
  The exceptions that \<open>run\<close> has no handler for: an \<open>OSError\<close> of \<open>os.killpg\<close>
  other than \<open>ProcessLookupError\<close>, the error of \<open>get_plugin\<close> with the name asked
  for, and the error of \<open>status.set\<close>.
\<close>

datatype uncaught = OSError | SchedulerPluginError string | StatusFileError

datatype exit = Return int | Raise uncaught

definition EINVAL :: int where
  "EINVAL = 22"

text \<open>\<open>cancel_failed\<close> is \<open>False\<close> from its assignment to both returns; as an exit
  status \<open>False\<close> is 0.\<close>

definition cancel_failed :: int where
  "cancel_failed = 0"

definition fprint :: "message \<Rightarrow> st \<Rightarrow> st" where
  "fprint m s = s\<lparr>printed := printed s @ [m]\<rparr>"

definition called :: "call \<Rightarrow> st \<Rightarrow> st" where
  "called c s = s\<lparr>calls := calls s @ [c]\<rparr>"

subsection \<open>Python's \<open>int\<close> and \<open>startswith\<close> on strings\<close>

text \<open>
  \<open>int(test_id)\<close> in base 10 on a string of ASCII characters: white space around the
  number (a blank and the characters 9 to 13) is dropped, one sign may come first, and
  digits may be separated by single underscores. Anything else, the characters 28 to 31
  among it, raises \<open>ValueError\<close>, here \<open>None\<close>. A \<open>char\<close> is a
  byte: the digits and spaces of Unicode beyond ASCII, which Python also takes, are
  outside the model.
\<close>

definition is_digit :: "char \<Rightarrow> bool" where
  "is_digit c = (48 \<le> (of_char c :: nat) \<and> (of_char c :: nat) \<le> 57)"

definition digit_val :: "char \<Rightarrow> nat" where
  "digit_val c = (of_char c :: nat) - 48"

definition is_space :: "char \<Rightarrow> bool" where
  "is_space c = ((of_char c :: nat) = 32 \<or> (9 \<le> (of_char c :: nat) \<and> (of_char c :: nat) \<le> 13))"

definition strip :: "string \<Rightarrow> string" where
  "strip s = rev (dropWhile is_space (rev (dropWhile is_space s)))"

fun py_digits :: "string \<Rightarrow> nat \<Rightarrow> nat option" where
  "py_digits [] acc = Some acc"
| "py_digits (c # cs) acc =
     (if is_digit c then py_digits cs (10 * acc + digit_val c)
      else if c = CHR ''_'' \<and> cs \<noteq> [] \<and> is_digit (hd cs) then py_digits cs acc
      else None)"

definition py_unsigned :: "string \<Rightarrow> int option" where
  "py_unsigned s =
     (case s of [] \<Rightarrow> None
      | c # cs \<Rightarrow> if is_digit c then map_option int (py_digits s 0) else None)"

definition py_int :: "string \<Rightarrow> int option" where
  "py_int s =
     (case strip s of [] \<Rightarrow> None
      | c # cs \<Rightarrow>
          if c = CHR ''-'' then map_option uminus (py_unsigned cs)
          else if c = CHR ''+'' then py_unsigned cs
          else py_unsigned (c # cs))"

definition startswith_s :: "string \<Rightarrow> bool" where
  "startswith_s test_id = (case test_id of [] \<Rightarrow> False | c # cs \<Rightarrow> c = CHR ''s'')"

subsection \<open>\<open>CancelCommand.run\<close>\<close>

record args =
  tests :: "string list"
  all_arg :: bool
  status_arg :: bool
  json_arg :: bool

text \<open>Lines 59 to 64: the loop over \<open>tests_dir.iterdir()\<close>, appending to \<open>args.tests\<close>.\<close>

fun iterdir_loop :: "nat \<Rightarrow> dir_entry list \<Rightarrow> string list \<Rightarrow> string list" where
  "iterdir_loop user_id [] acc = acc"
| "iterdir_loop user_id (test # rest) acc =
     (if st_uid test = user_id then
        (if \<not> has_RUN_COMPLETE test then iterdir_loop user_id rest (acc @ [name test])
         else iterdir_loop user_id rest acc)
      else iterdir_loop user_id rest acc)"

text \<open>Lines 54 to 69: \<open>args.tests\<close> as the two loops below find it.\<close>

definition args_tests :: "env \<Rightarrow> args \<Rightarrow> string list" where
  "args_tests e a =
     (if tests a = [] then
        (if all_arg a then iterdir_loop (euid e) (test_runs_dir e) (tests a)
         else (case load_user_series_id e of
                 Some series_id \<Rightarrow> tests a @ [series_id]
               | None \<Rightarrow> tests a))
      else tests a)"

fun series_message :: "string \<Rightarrow> series_error \<Rightarrow> message" where
  "series_message test_id (TestSeriesError m) = Series_not_found test_id m"
| "series_message test_id (ValueError m) = Series_not_valid test_id m"

text \<open>Lines 92 to 103: the signal to the group of a series, when it has a PGID. Python
  takes \<open>None\<close> and 0 for false.\<close>

definition kill_series :: "env \<Rightarrow> string \<Rightarrow> int option \<Rightarrow> st \<Rightarrow> uncaught option \<times> st" where
  "kill_series e test_id series_pgid s =
     (case series_pgid of
        None \<Rightarrow> (None, s)
      | Some pgid \<Rightarrow>
          if pgid = 0 then (None, s)
          else (case killpg e pgid of
                  Signalled \<Rightarrow> (None, fprint (Killed_process pgid test_id) (called (Killpg pgid) s))
                | ProcessLookupError \<Rightarrow>
                    (None, fprint (Unable_to_kill test_id pgid) (called (Killpg pgid) s))
                | PermissionError \<Rightarrow> (Some OSError, called (Killpg pgid) s)))"

text \<open>Lines 73 to 113: the body of the first loop, for one identifier. It gives the
  test list with the runs of the identifier added, or leaves \<open>run\<close>.\<close>

definition resolve_id :: "env \<Rightarrow> string \<Rightarrow> int list \<Rightarrow> st \<Rightarrow> (exit + int list) \<times> st" where
  "resolve_id e test_id test_list s =
     (if startswith_s test_id then
        (case get_pgid e test_id of
           Inl err \<Rightarrow> (Inl (Return EINVAL), fprint (series_message test_id err) s)
         | Inr series_pgid \<Rightarrow>
             (case from_id_tests e test_id of
                Inl err \<Rightarrow> (Inl (Return EINVAL), fprint (series_message test_id err) s)
              | Inr members \<Rightarrow>
                  (case kill_series e test_id series_pgid s of
                     (Some x, s') \<Rightarrow> (Inl (Raise x), s')
                   | (None, s') \<Rightarrow> (Inr (test_list @ members), s'))))
      else
        (case py_int test_id of
           None \<Rightarrow> (Inl (Return EINVAL), fprint (Test_not_valid test_id) s)
         | Some n \<Rightarrow> (Inr (test_list @ [n]), s)))"

text \<open>Lines 71 to 113: the first loop.\<close>

fun resolve_loop :: "env \<Rightarrow> string list \<Rightarrow> int list \<Rightarrow> st \<Rightarrow> (exit + int list) \<times> st" where
  "resolve_loop e [] test_list s = (Inr test_list, s)"
| "resolve_loop e (test_id # rest) test_list s =
     (case resolve_id e test_id test_list s of
        (Inl x, s') \<Rightarrow> (Inl x, s')
      | (Inr test_list', s') \<Rightarrow> resolve_loop e rest test_list' s')"

text \<open>Lines 118 to 151: the body of the second loop, for one run id. The test objects are
  kept by their ids: each is a handle on the run in the working directory.\<close>

definition cancel_test :: "env \<Rightarrow> int \<Rightarrow> int list \<Rightarrow> st \<Rightarrow> (exit + int list) \<times> st" where
  "cancel_test e test_id test_object_list s =
     (case runs s test_id of
        None \<Rightarrow> (Inl (Return EINVAL), fprint (Test_cannot_be_found test_id) s)
      | Some test \<Rightarrow>
          (case get_plugin e (scheduler test) of
             None \<Rightarrow> (Inl (Raise (SchedulerPluginError (scheduler test))), s)
           | Some sched \<Rightarrow>
               if state (current (status test)) = RUNNING
                  \<or> state (current (status test)) = SCHEDULED then
                 (case status_set (status test) (fst (sched test_id test))
                         (snd (sched test_id test)) (clock e) of
                    Inl err \<Rightarrow>
                      (Inl (Raise StatusFileError), called (Cancel_job (scheduler test) test_id) s)
                  | Inr sf \<Rightarrow>
                      (Inr (test_object_list @ [test_id]),
                       fprint (Test_cancelled test_id)
                         (called (Cancel_job (scheduler test) test_id) s)
                           \<lparr>runs := (runs s)(test_id \<mapsto> set_run_complete (test\<lparr>status := sf\<rparr>))\<rparr>))
               else
                 (Inr (test_object_list @ [test_id]),
                  fprint (Test_could_not_be_cancelled test_id (state (current (status test)))) s)))"

text \<open>Lines 115 to 151: the second loop.\<close>

fun cancel_loop :: "env \<Rightarrow> int list \<Rightarrow> int list \<Rightarrow> st \<Rightarrow> (exit + int list) \<times> st" where
  "cancel_loop e [] test_object_list s = (Inr test_object_list, s)"
| "cancel_loop e (test_id # rest) test_object_list s =
     (case cancel_test e test_id test_object_list s of
        (Inl x, s') \<Rightarrow> (Inl x, s')
      | (Inr test_object_list', s') \<Rightarrow> cancel_loop e rest test_object_list' s')"

text \<open>Lines 153 to 160.\<close>

definition print_statuses :: "args \<Rightarrow> int list \<Rightarrow> st \<Rightarrow> exit \<times> st" where
  "print_statuses a test_object_list s =
     (if status_arg a \<and> test_object_list \<noteq> [] then
        (Return cancel_failed, fprint (Statuses test_object_list (json_arg a)) s)
      else (Return cancel_failed, s))"

text \<open>Lines 115 to 160: \<open>run\<close> from the second loop on, for the test list.\<close>

definition cancel_all :: "env \<Rightarrow> args \<Rightarrow> int list \<Rightarrow> st \<Rightarrow> exit \<times> st" where
  "cancel_all e a test_list s =
     (case cancel_loop e test_list [] s of
        (Inl x, s') \<Rightarrow> (x, s')
      | (Inr test_object_list, s') \<Rightarrow> print_statuses a test_object_list s')"

text \<open>Lines 71 to 160: \<open>run\<close> from the first loop on, for the identifiers given.\<close>

definition run_tests :: "env \<Rightarrow> args \<Rightarrow> string list \<Rightarrow> st \<Rightarrow> exit \<times> st" where
  "run_tests e a ids s =
     (case resolve_loop e ids [] s of
        (Inl x, s') \<Rightarrow> (x, s')
      | (Inr test_list, s') \<Rightarrow> cancel_all e a test_list s')"

definition run :: "env \<Rightarrow> args \<Rightarrow> st \<Rightarrow> exit \<times> st" where
  "run e a s = run_tests e a (args_tests e a) s"

subsection \<open>Resolution, as the specification speaks of it\<close>

text \<open>
  The message of an identifier that cannot be resolved: a series that \<open>get_pgid\<close> or
  \<open>from_id\<close> rejects, a test id that is not a number. \<open>None\<close> when the
  identifier resolves.
\<close>

definition resolution_failure :: "env \<Rightarrow> string \<Rightarrow> message option" where
  "resolution_failure e test_id =
     (if startswith_s test_id then
        (case get_pgid e test_id of
           Inl err \<Rightarrow> Some (series_message test_id err)
         | Inr series_pgid \<Rightarrow>
             (case from_id_tests e test_id of
                Inl err \<Rightarrow> Some (series_message test_id err)
              | Inr members \<Rightarrow> None))
      else (case py_int test_id of None \<Rightarrow> Some (Test_not_valid test_id) | Some n \<Rightarrow> None))"

text \<open>The run ids an identifier stands for: the members of a series, or the one run.\<close>

definition run_ids :: "env \<Rightarrow> string \<Rightarrow> int list" where
  "run_ids e test_id =
     (if startswith_s test_id then
        (case from_id_tests e test_id of Inl err \<Rightarrow> [] | Inr members \<Rightarrow> members)
      else (case py_int test_id of None \<Rightarrow> [] | Some n \<Rightarrow> [n]))"

text \<open>Every identifier resolves, and every run id they stand for can be loaded.\<close>

definition all_resolved :: "env \<Rightarrow> st \<Rightarrow> string list \<Rightarrow> bool" where
  "all_resolved e s ids =
     (list_all (\<lambda>test_id. resolution_failure e test_id = None) ids
      \<and> list_all (\<lambda>n. runs s n \<noteq> None) (concat (map (run_ids e) ids)))"

text \<open>The cancel command, invoked \<open>n\<close> times in a row with the same arguments.\<close>

fun run_times :: "nat \<Rightarrow> env \<Rightarrow> args \<Rightarrow> st \<Rightarrow> st" where
  "run_times 0 e a s = s"
| "run_times (Suc n) e a s = run_times n e a (snd (run e a s))"

subsection \<open>A working directory to run the command in\<close>

definition ex_run :: "STATES \<Rightarrow> test_run" where
  "ex_run x =
     \<lparr>scheduler = ''slurm'',
      status = Status_file \<lparr>state = CREATED, note_str = ''created'', when_ts = 1\<rparr>
                 (if x = CREATED then [] else [\<lparr>state = x, note_str = '''', when_ts = 2\<rparr>]),
      run_complete = terminal x\<rparr>"

definition ex_runs :: "int \<Rightarrow> test_run option" where
  "ex_runs n =
     (if n = 42 then Some (ex_run RUNNING)
      else if n = 7 then Some (ex_run CREATED)
      else if n = 10 then Some (ex_run RUNNING)
      else if n = 11 then Some (ex_run COMPLETE)
      else if n = 12 then Some (ex_run SCHEDULED)
      else None)"

definition ex_st :: st where
  "ex_st = \<lparr>runs = ex_runs, printed = [], calls = []\<rparr>"

definition ex_env :: env where
  "ex_env =
     \<lparr>euid = 1000,
      test_runs_dir =
        [\<lparr>name = ''42'', st_uid = 1000, has_RUN_COMPLETE = False\<rparr>,
         \<lparr>name = ''11'', st_uid = 1000, has_RUN_COMPLETE = True\<rparr>,
         \<lparr>name = ''5'', st_uid = 1001, has_RUN_COMPLETE = False\<rparr>,
         \<lparr>name = ''7'', st_uid = 1000, has_RUN_COMPLETE = False\<rparr>],
      load_user_series_id = Some ''s7'',
      get_pgid = (\<lambda>sid. if sid = ''s7'' then Inr (Some 4321)
                       else if sid = ''s8'' then Inr None
                       else Inl (TestSeriesError ''no such series'')),
      from_id_tests = (\<lambda>sid. if sid = ''s7'' then Inr [10, 11, 12]
                       else if sid = ''s8'' then Inr [42]
                       else Inl (TestSeriesError ''no such series'')),
      killpg = (\<lambda>pgid. ProcessLookupError),
      get_plugin = (\<lambda>n. if n = ''slurm'' then Some (\<lambda>test_id test. (CANCELLED, ''terminated by user''))
                       else None),
      clock = 9\<rparr>"

text \<open>The same, with a series \<open>s9\<close> of three runs whose recorded PGID is 0.\<close>

definition ex_env9 :: env where
  "ex_env9 =
     ex_env
       \<lparr>get_pgid := (\<lambda>sid. if sid = ''s9'' then Inr (Some 0) else get_pgid ex_env sid),
        from_id_tests :=
          (\<lambda>sid. if sid = ''s9'' then Inr [10, 11, 12] else from_id_tests ex_env sid)\<rparr>"

definition ex_args :: "string list \<Rightarrow> args" where
  "ex_args ids = \<lparr>tests = ids, all_arg = False, status_arg = False, json_arg = False\<rparr>"

section \<open>Properties of the cancel command\<close>

subsection \<open>Status files and the state record\<close>

lemma entries_append_entry: "entries (append_entry sf x) = entries sf @ [x]"
  by (cases sf) simp

lemma current_append_entry: "current (append_entry sf x) = x"
  by (simp add: current_def entries_append_entry)

lemma status_set_live:
  "state (current sf) = RUNNING \<or> state (current sf) = SCHEDULED \<Longrightarrow>
   status_set sf x n t = Inr (append_entry sf \<lparr>state = x, note_str = n, when_ts = t\<rparr>)"
  by (auto simp: status_set_def terminal_def)

lemma terminal_not_live: "terminal x \<Longrightarrow> x \<noteq> RUNNING \<and> x \<noteq> SCHEDULED"
  by (auto simp: terminal_def)

lemma runs_fprint [simp]: "runs (fprint m s) = runs s"
  by (simp add: fprint_def)

lemma runs_called [simp]: "runs (called c s) = runs s"
  by (simp add: called_def)

lemma calls_fprint [simp]: "calls (fprint m s) = calls s"
  by (simp add: fprint_def)

lemma printed_fprint [simp]: "printed (fprint m s) = printed s @ [m]"
  by (simp add: fprint_def)

lemma printed_called [simp]: "printed (called c s) = printed s"
  by (simp add: called_def)

lemma calls_called [simp]: "calls (called c s) = calls s @ [c]"
  by (simp add: called_def)

lemma runs_print_statuses [simp]: "runs (snd (print_statuses a tol s)) = runs s"
  by (simp add: print_statuses_def)

lemma calls_print_statuses [simp]: "calls (snd (print_statuses a tol s)) = calls s"
  by (simp add: print_statuses_def)

lemma print_statuses_tests_update:
  "print_statuses (a\<lparr>tests := ids'\<rparr>) tol s = print_statuses a tol s"
  by (simp add: print_statuses_def)

subsection \<open>The examples evaluated\<close>

lemmas ex_defs = ex_st_def ex_env_def ex_runs_def ex_run_def ex_args_def

lemmas int_defs = startswith_s_def py_int_def strip_def is_space_def py_unsigned_def
  is_digit_def digit_val_def

lemmas run_defs = run_def args_tests_def run_tests_def cancel_all_def resolve_id_def
  kill_series_def cancel_test_def print_statuses_def status_set_def set_run_complete_def
  current_def terminal_def fprint_def called_def EINVAL_def cancel_failed_def

lemma py_int_42: "py_int ''42'' = Some 42"
  by (simp add: int_defs)

lemma py_int_7: "py_int ''7'' = Some 7"
  by (simp add: int_defs)

lemma py_int_99: "py_int ''99'' = Some 99"
  by (simp add: int_defs)

lemma py_int_abc: "py_int ''abc'' = None"
  by (simp add: int_defs)

subsection \<open>The first loop\<close>

lemma runs_kill_series: "runs (snd (kill_series e sid pg s)) = runs s"
  by (simp add: kill_series_def split: option.splits kill_result.splits)

lemma runs_resolve_id: "runs (snd (resolve_id e i acc s)) = runs s"
proof -
  have "runs (snd (case kill_series e i pg s of
                     (Some x, s') \<Rightarrow> (Inl (Raise x), s')
                   | (None, s') \<Rightarrow> (Inr (acc @ ms), s'))) = runs s" for pg ms
    using runs_kill_series [of e i pg s]
    by (cases "kill_series e i pg s") (auto split: option.splits)
  then show ?thesis
    by (simp add: resolve_id_def split: sum.splits option.splits)
qed

lemma runs_resolve_loop: "runs (snd (resolve_loop e ids acc s)) = runs s"
proof (induction ids arbitrary: acc s)
  case Nil
  then show ?case by simp
next
  case (Cons i ids)
  obtain x s' where r: "resolve_id e i acc s = (x, s')"
    by (cases "resolve_id e i acc s")
  with runs_resolve_id [of e i acc s] have "runs s' = runs s" by simp
  then show ?case
    using r Cons.IH by (cases x) simp_all
qed

lemma kill_series_no_pgid:
  "series_pgid = None \<or> series_pgid = Some 0 \<Longrightarrow> kill_series e sid series_pgid s = (None, s)"
  by (auto simp: kill_series_def)

lemma kill_series_no_process:
  "pgid \<noteq> 0 \<Longrightarrow> killpg e pgid = ProcessLookupError \<Longrightarrow>
   kill_series e sid (Some pgid) s
     = (None, fprint (Unable_to_kill sid pgid) (called (Killpg pgid) s))"
  by (simp add: kill_series_def)

lemma kill_series_no_denial:
  "\<forall>pgid. killpg e pgid \<noteq> PermissionError \<Longrightarrow> fst (kill_series e sid pg s) = None"
  by (simp add: kill_series_def split: option.splits kill_result.splits)

lemma resolve_id_series:
  assumes "startswith_s sid" and "get_pgid e sid = Inr series_pgid"
    and "from_id_tests e sid = Inr members"
    and "kill_series e sid series_pgid s = (None, s')"
  shows "resolve_id e sid test_list s = (Inr (test_list @ members), s')"
  using assms by (simp add: resolve_id_def)

lemma resolve_id_Inr:
  "resolve_id e i acc s = (Inr acc', s') \<Longrightarrow>
   acc' = acc @ run_ids e i \<and> resolution_failure e i = None"
  by (auto simp: resolve_id_def run_ids_def resolution_failure_def
      split: if_splits sum.splits option.splits prod.splits)

lemma resolve_id_resolved:
  assumes "\<forall>pgid. killpg e pgid \<noteq> PermissionError" and "resolution_failure e i = None"
  shows "fst (resolve_id e i acc s) = Inr (acc @ run_ids e i)"
proof (cases "startswith_s i")
  case True
  with assms(2) obtain pg ms where g: "get_pgid e i = Inr pg" "from_id_tests e i = Inr ms"
    by (auto simp: resolution_failure_def split: sum.splits)
  obtain s' where "kill_series e i pg s = (None, s')"
    using kill_series_no_denial [OF assms(1), of i pg s]
    by (cases "kill_series e i pg s") simp
  from resolve_id_series [OF True g this] g True show ?thesis
    by (simp add: run_ids_def)
next
  case False
  with assms(2) show ?thesis
    by (auto simp: resolve_id_def resolution_failure_def run_ids_def split: option.splits)
qed

lemma resolve_id_failure:
  "resolution_failure e i = Some m \<Longrightarrow> resolve_id e i acc s = (Inl (Return EINVAL), fprint m s)"
  by (auto simp: resolve_id_def resolution_failure_def split: if_splits sum.splits option.splits)

lemma resolve_loop_append:
  "resolve_loop e (xs @ ys) acc s =
     (case resolve_loop e xs acc s of
        (Inl x, s') \<Rightarrow> (Inl x, s')
      | (Inr acc', s') \<Rightarrow> resolve_loop e ys acc' s')"
  by (induction xs arbitrary: acc s) (auto split: prod.splits sum.splits)

lemma resolve_loop_Inr:
  "resolve_loop e ids acc s = (Inr acc', s') \<Longrightarrow> acc' = acc @ concat (map (run_ids e) ids)"
proof (induction ids arbitrary: acc s)
  case Nil
  then show ?case by simp
next
  case (Cons i ids)
  obtain x s1 where r: "resolve_id e i acc s = (x, s1)"
    by (cases "resolve_id e i acc s")
  show ?case
  proof (cases x)
    case (Inl y)
    with r Cons.prems show ?thesis by simp
  next
    case (Inr acc1)
    with r Cons.prems have "resolve_loop e ids acc1 s1 = (Inr acc', s')" by simp
    from Cons.IH [OF this] resolve_id_Inr [OF r [unfolded Inr]]
    show ?thesis by simp
  qed
qed

lemma count_list_concat:
  "count_list (concat xss) n = sum_list (map (\<lambda>xs. count_list xs n) xss)"
  by (induction xss) simp_all

lemma resolve_loop_resolved:
  assumes "\<forall>pgid. killpg e pgid \<noteq> PermissionError"
  shows "list_all (\<lambda>i. resolution_failure e i = None) ids \<Longrightarrow>
         fst (resolve_loop e ids acc s) = Inr (acc @ concat (map (run_ids e) ids))"
proof (induction ids arbitrary: acc s)
  case Nil
  then show ?case by simp
next
  case (Cons i ids)
  then have i: "resolution_failure e i = None"
    and rest: "list_all (\<lambda>i. resolution_failure e i = None) ids"
    by simp_all
  obtain s1 where "resolve_id e i acc s = (Inr (acc @ run_ids e i), s1)"
    using resolve_id_resolved [OF assms i, of acc s]
    by (cases "resolve_id e i acc s") simp
  then show ?case
    using Cons.IH [OF rest, of "acc @ run_ids e i" s1] by simp
qed

lemma resolve_loop_unresolved:
  assumes "\<forall>pgid. killpg e pgid \<noteq> PermissionError"
  shows "\<not> list_all (\<lambda>i. resolution_failure e i = None) ids \<Longrightarrow>
         fst (resolve_loop e ids acc s) = Inl (Return EINVAL)"
proof (induction ids arbitrary: acc s)
  case Nil
  then show ?case by simp
next
  case (Cons i ids)
  show ?case
  proof (cases "resolution_failure e i")
    case (Some m)
    from resolve_id_failure [OF this] show ?thesis by simp
  next
    case None
    with Cons.prems have rest: "\<not> list_all (\<lambda>i. resolution_failure e i = None) ids"
      by simp
    obtain s1 where "resolve_id e i acc s = (Inr (acc @ run_ids e i), s1)"
      using resolve_id_resolved [OF assms None, of acc s]
      by (cases "resolve_id e i acc s") simp
    then show ?thesis
      using Cons.IH [OF rest, of "acc @ run_ids e i" s1] by simp
  qed
qed

lemma resolve_id_returned:
  "resolve_id e i acc s = (Inl (Return r), s') \<Longrightarrow> r = EINVAL \<and> resolution_failure e i \<noteq> None"
  by (auto simp: resolve_id_def resolution_failure_def
      split: if_splits sum.splits option.splits prod.splits)

lemma resolve_loop_returned:
  "fst (resolve_loop e ids acc s) = Inl (Return r) \<Longrightarrow>
   r = EINVAL \<and> \<not> list_all (\<lambda>i. resolution_failure e i = None) ids"
proof (induction ids arbitrary: acc s)
  case Nil
  then show ?case by simp
next
  case (Cons i ids)
  obtain x s1 where c: "resolve_id e i acc s = (x, s1)"
    by (cases "resolve_id e i acc s")
  show ?case
  proof (cases x)
    case (Inl y)
    with c Cons.prems have "resolve_id e i acc s = (Inl (Return r), s1)" by simp
    from resolve_id_returned [OF this] show ?thesis by simp
  next
    case (Inr acc1)
    with c Cons.prems have "fst (resolve_loop e ids acc1 s1) = Inl (Return r)" by simp
    from Cons.IH [OF this] show ?thesis by simp
  qed
qed

lemma resolve_loop_Inr_resolved:
  "resolve_loop e ids acc s = (Inr acc', s') \<Longrightarrow>
   list_all (\<lambda>i. resolution_failure e i = None) ids"
proof (induction ids arbitrary: acc s)
  case Nil
  then show ?case by simp
next
  case (Cons i ids)
  obtain x s1 where c: "resolve_id e i acc s = (x, s1)"
    by (cases "resolve_id e i acc s")
  show ?case
  proof (cases x)
    case (Inl y)
    with c Cons.prems show ?thesis by simp
  next
    case (Inr acc1)
    with c Cons.prems have "resolve_loop e ids acc1 s1 = (Inr acc', s')" by simp
    from Cons.IH [OF this] resolve_id_Inr [OF c [unfolded Inr]] show ?thesis by simp
  qed
qed

lemma calls_kill_series:
  "Cancel_job sch n \<in> set (calls (snd (kill_series e sid pg s))) \<Longrightarrow>
   Cancel_job sch n \<in> set (calls s)"
  by (auto simp: kill_series_def split: option.splits kill_result.splits if_splits)

lemma calls_resolve_id:
  "Cancel_job sch n \<in> set (calls (snd (resolve_id e i acc s))) \<Longrightarrow>
   Cancel_job sch n \<in> set (calls s)"
proof -
  have "Cancel_job sch n \<in> set (calls (snd (case kill_series e i pg s of
                     (Some x, s') \<Rightarrow> (Inl (Raise x), s')
                   | (None, s') \<Rightarrow> (Inr (acc @ ms), s')))) \<Longrightarrow>
        Cancel_job sch n \<in> set (calls s)" for pg ms
    using calls_kill_series [of sch n e i pg s]
    by (cases "kill_series e i pg s") (auto split: option.splits)
  then show "Cancel_job sch n \<in> set (calls (snd (resolve_id e i acc s))) \<Longrightarrow>
     Cancel_job sch n \<in> set (calls s)"
    by (auto simp: resolve_id_def split: sum.splits option.splits if_splits)
qed

lemma calls_resolve_loop:
  "Cancel_job sch n \<in> set (calls (snd (resolve_loop e ids acc s))) \<Longrightarrow>
   Cancel_job sch n \<in> set (calls s)"
proof (induction ids arbitrary: acc s)
  case Nil
  then show ?case by simp
next
  case (Cons i ids)
  obtain x s1 where r: "resolve_id e i acc s = (x, s1)"
    by (cases "resolve_id e i acc s")
  have step: "Cancel_job sch n \<in> set (calls s1) \<Longrightarrow> Cancel_job sch n \<in> set (calls s)"
    using calls_resolve_id [of sch n e i acc s] r by simp
  show ?case
  proof (cases x)
    case (Inl y)
    with r Cons.prems step show ?thesis by simp
  next
    case (Inr acc1)
    with r Cons.prems have "Cancel_job sch n \<in> set (calls (snd (resolve_loop e ids acc1 s1)))"
      by simp
    from step [OF Cons.IH [OF this]] show ?thesis .
  qed
qed

subsection \<open>The second loop\<close>

lemma cancel_test_live:
  assumes "runs s test_id = Some test"
    and "get_plugin e (scheduler test) = Some sched"
    and "state (current (status test)) = RUNNING \<or> state (current (status test)) = SCHEDULED"
  shows "cancel_test e test_id tol s =
     (Inr (tol @ [test_id]),
      fprint (Test_cancelled test_id) (called (Cancel_job (scheduler test) test_id) s)
        \<lparr>runs := (runs s)(test_id \<mapsto> set_run_complete (test\<lparr>status :=
            append_entry (status test)
              \<lparr>state = fst (sched test_id test), note_str = snd (sched test_id test),
               when_ts = clock e\<rparr>\<rparr>))\<rparr>)"
  using assms by (auto simp: cancel_test_def status_set_live)

lemma cancel_test_skip:
  assumes "runs s test_id = Some test"
    and "get_plugin e (scheduler test) = Some sched"
    and "state (current (status test)) \<noteq> RUNNING"
    and "state (current (status test)) \<noteq> SCHEDULED"
  shows "cancel_test e test_id tol s =
     (Inr (tol @ [test_id]),
      fprint (Test_could_not_be_cancelled test_id (state (current (status test)))) s)"
  using assms by (simp add: cancel_test_def)

lemma cancel_test_not_found:
  "runs s n = None \<Longrightarrow>
   cancel_test e n tol s = (Inl (Return EINVAL), fprint (Test_cannot_be_found n) s)"
  by (simp add: cancel_test_def)

lemma cancel_test_scheduler:
  "map_option scheduler (runs (snd (cancel_test e n tol s)) k) = map_option scheduler (runs s k)"
  by (simp add: cancel_test_def set_run_complete_def split: option.splits sum.splits)

lemma cancel_test_loaded:
  assumes "runs s n = Some test" and "get_plugin e (scheduler test) = Some sched"
  shows "fst (cancel_test e n tol s) = Inr (tol @ [n])"
proof (cases "state (current (status test)) = RUNNING \<or> state (current (status test)) = SCHEDULED")
  case True
  from cancel_test_live [OF assms True] show ?thesis by simp
next
  case False
  with cancel_test_skip [OF assms] show ?thesis by simp
qed

lemma cancel_loop_append:
  "cancel_loop e (xs @ ys) tol s =
     (case cancel_loop e xs tol s of
        (Inl x, s') \<Rightarrow> (Inl x, s')
      | (Inr tol', s') \<Rightarrow> cancel_loop e ys tol' s')"
  by (induction xs arbitrary: tol s) (auto split: prod.splits sum.splits)

lemma cancel_loop_outcome:
  assumes "\<forall>n test. runs s n = Some test \<longrightarrow> get_plugin e (scheduler test) \<noteq> None"
  shows "fst (cancel_loop e ids tol s) =
     (if list_all (\<lambda>n. runs s n \<noteq> None) ids then Inr (tol @ ids) else Inl (Return EINVAL))"
  using assms
proof (induction ids arbitrary: tol s)
  case Nil
  then show ?case by simp
next
  case (Cons n ids)
  show ?case
  proof (cases "runs s n")
    case None
    from cancel_test_not_found [OF this] None show ?thesis by simp
  next
    case (Some test)
    with Cons.prems obtain sched where p: "get_plugin e (scheduler test) = Some sched"
      by auto
    obtain s1 where c: "cancel_test e n tol s = (Inr (tol @ [n]), s1)"
      using cancel_test_loaded [OF Some p, of tol] by (cases "cancel_test e n tol s") simp
    have same: "map_option scheduler (runs s1 k) = map_option scheduler (runs s k)" for k
      using cancel_test_scheduler [of e n tol s k] c by simp
    have inv: "\<forall>k test. runs s1 k = Some test \<longrightarrow> get_plugin e (scheduler test) \<noteq> None"
    proof (intro allI impI)
      fix k t' assume "runs s1 k = Some t'"
      with same [of k] obtain t where t: "runs s k = Some t" "scheduler t = scheduler t'"
        by (cases "runs s k") auto
      from Cons.prems t(1) have "get_plugin e (scheduler t) \<noteq> None" by blast
      with t(2) show "get_plugin e (scheduler t') \<noteq> None" by simp
    qed
    have "(runs s1 k \<noteq> None) = (runs s k \<noteq> None)" for k
      using same [of k] by (cases "runs s1 k"; cases "runs s k") simp_all
    then have "list_all (\<lambda>k. runs s1 k \<noteq> None) ids = list_all (\<lambda>k. runs s k \<noteq> None) ids"
      by simp
    with Cons.IH [OF inv, of "tol @ [n]"] c Some show ?thesis by simp
  qed
qed

lemma cancel_test_returned:
  "(fst (cancel_test e n tol s) = Inr y \<longrightarrow> runs s n \<noteq> None)
   \<and> (fst (cancel_test e n tol s) = Inl (Return r) \<longrightarrow> r = EINVAL \<and> runs s n = None)"
  by (auto simp: cancel_test_def split: option.splits sum.splits if_splits)

lemma cancel_loop_returned:
  "(fst (cancel_loop e ids tol s) = Inr y \<longrightarrow> list_all (\<lambda>n. runs s n \<noteq> None) ids)
   \<and> (fst (cancel_loop e ids tol s) = Inl (Return r) \<longrightarrow>
        r = EINVAL \<and> \<not> list_all (\<lambda>n. runs s n \<noteq> None) ids)"
proof (induction ids arbitrary: tol s)
  case Nil
  then show ?case by simp
next
  case (Cons n ids)
  obtain x s1 where c: "cancel_test e n tol s = (x, s1)"
    by (cases "cancel_test e n tol s")
  show ?case
  proof (cases x)
    case (Inl ex)
    with c cancel_test_returned [of e n tol s y r] show ?thesis by auto
  next
    case (Inr tol1)
    have loaded: "runs s n \<noteq> None"
      using c Inr cancel_test_returned [of e n tol s tol1 r] by simp
    have "(runs s1 k \<noteq> None) = (runs s k \<noteq> None)" for k
      using cancel_test_scheduler [of e n tol s k] c
      by (cases "runs s1 k"; cases "runs s k") simp_all
    then have "list_all (\<lambda>k. runs s1 k \<noteq> None) ids = list_all (\<lambda>k. runs s k \<noteq> None) ids"
      by simp
    with Cons.IH [of tol1 s1] c Inr loaded show ?thesis by simp
  qed
qed

lemma cancel_test_not_live:
  assumes "runs s n = Some test"
    and "state (current (status test)) \<noteq> RUNNING"
    and "state (current (status test)) \<noteq> SCHEDULED"
  shows "runs (snd (cancel_test e k tol s)) n = Some test
     \<and> (Cancel_job sch n \<in> set (calls (snd (cancel_test e k tol s))) \<longrightarrow>
          Cancel_job sch n \<in> set (calls s))"
  using assms
  by (auto simp: cancel_test_def split: option.splits sum.splits if_splits)

lemma cancel_loop_not_live:
  assumes "state (current (status test)) \<noteq> RUNNING"
    and "state (current (status test)) \<noteq> SCHEDULED"
  shows "runs s n = Some test \<Longrightarrow>
     runs (snd (cancel_loop e ids tol s)) n = Some test
     \<and> (Cancel_job sch n \<in> set (calls (snd (cancel_loop e ids tol s))) \<longrightarrow>
          Cancel_job sch n \<in> set (calls s))"
proof (induction ids arbitrary: tol s)
  case Nil
  then show ?case by simp
next
  case (Cons k ids)
  obtain x s1 where c: "cancel_test e k tol s = (x, s1)"
    by (cases "cancel_test e k tol s")
  have s1: "runs s1 n = Some test"
    and calls1: "Cancel_job sch n \<in> set (calls s1) \<Longrightarrow> Cancel_job sch n \<in> set (calls s)"
    using cancel_test_not_live [OF Cons.prems assms, of e k tol sch] c by simp_all
  show ?case
  proof (cases x)
    case (Inl y)
    with c s1 calls1 show ?thesis by simp
  next
    case (Inr tol1)
    with c Cons.IH [OF s1, of tol1] calls1 show ?thesis by simp
  qed
qed

lemma cancel_all_one:
  "cancel_all e a [n] s =
     (case cancel_test e n [] s of
        (Inl x, s') \<Rightarrow> (x, s')
      | (Inr tol, s') \<Rightarrow> print_statuses a tol s')"
  by (simp add: cancel_all_def split: prod.splits sum.splits)

lemma cancel_all_tests_update:
  "cancel_all e (a\<lparr>tests := ids'\<rparr>) test_list s = cancel_all e a test_list s"
  by (simp add: cancel_all_def print_statuses_tests_update split: prod.splits sum.splits)

lemma cancel_test_other:
  "k \<noteq> n \<Longrightarrow> runs (snd (cancel_test e k tol s)) n = runs s n"
  by (simp add: cancel_test_def split: option.splits sum.splits)

lemma cancel_loop_other:
  "n \<notin> set ids \<Longrightarrow> runs (snd (cancel_loop e ids tol s)) n = runs s n"
proof (induction ids arbitrary: tol s)
  case Nil
  then show ?case by simp
next
  case (Cons k ids)
  obtain x s1 where c: "cancel_test e k tol s = (x, s1)"
    by (cases "cancel_test e k tol s")
  from Cons.prems have "k \<noteq> n" "n \<notin> set ids" by auto
  with cancel_test_other [of k n e tol s] c have s1: "runs s1 n = runs s n" by simp
  show ?case
  proof (cases x)
    case (Inl y)
    with c s1 show ?thesis by simp
  next
    case (Inr tol1)
    with c s1 Cons.IH [OF \<open>n \<notin> set ids\<close>, of tol1 s1] show ?thesis by simp
  qed
qed

lemma cancel_test_grows:
  "(c \<in> set (calls s) \<longrightarrow> c \<in> set (calls (snd (cancel_test e k tol s))))
   \<and> (m \<in> set (printed s) \<longrightarrow> m \<in> set (printed (snd (cancel_test e k tol s))))"
  by (auto simp: cancel_test_def split: option.splits sum.splits)

lemma cancel_loop_grows:
  "(c \<in> set (calls s) \<longrightarrow> c \<in> set (calls (snd (cancel_loop e ids tol s))))
   \<and> (m \<in> set (printed s) \<longrightarrow> m \<in> set (printed (snd (cancel_loop e ids tol s))))"
proof (induction ids arbitrary: tol s)
  case Nil
  then show ?case by simp
next
  case (Cons k ids)
  obtain x s1 where t: "cancel_test e k tol s = (x, s1)"
    by (cases "cancel_test e k tol s")
  have step: "c \<in> set (calls s) \<longrightarrow> c \<in> set (calls s1)"
    "m \<in> set (printed s) \<longrightarrow> m \<in> set (printed s1)"
    using cancel_test_grows [of c s e k tol m] t by auto
  show ?case
  proof (cases x)
    case (Inl y)
    with t step show ?thesis by simp
  next
    case (Inr tol1)
    with t step Cons.IH [where s = s1 and tol = tol1] show ?thesis by simp
  qed
qed

lemma cancel_test_no_killpg:
  "Killpg p \<in> set (calls (snd (cancel_test e k tol s))) \<Longrightarrow> Killpg p \<in> set (calls s)"
  by (auto simp: cancel_test_def split: option.splits sum.splits if_splits)

lemma cancel_loop_no_killpg:
  "Killpg p \<in> set (calls (snd (cancel_loop e ids tol s))) \<Longrightarrow> Killpg p \<in> set (calls s)"
proof (induction ids arbitrary: tol s)
  case Nil
  then show ?case by simp
next
  case (Cons k ids)
  obtain x s1 where t: "cancel_test e k tol s = (x, s1)"
    by (cases "cancel_test e k tol s")
  have step: "Killpg p \<in> set (calls s1) \<Longrightarrow> Killpg p \<in> set (calls s)"
    using cancel_test_no_killpg [of p e k tol s] t by simp
  show ?case
  proof (cases x)
    case (Inl y)
    with t Cons.prems step show ?thesis by simp
  next
    case (Inr tol1)
    with t Cons.prems have "Killpg p \<in> set (calls (snd (cancel_loop e ids tol1 s1)))" by simp
    from step [OF Cons.IH [OF this]] show ?thesis .
  qed
qed

lemma cancel_all_state:
  "runs (snd (cancel_all e a ids s)) = runs (snd (cancel_loop e ids [] s))"
  "calls (snd (cancel_all e a ids s)) = calls (snd (cancel_loop e ids [] s))"
  "m \<in> set (printed (snd (cancel_loop e ids [] s))) \<Longrightarrow>
   m \<in> set (printed (snd (cancel_all e a ids s)))"
  by (auto simp: cancel_all_def print_statuses_def split: prod.splits sum.splits)

lemma cancel_loop_reach:
  assumes "n \<notin> set pre" and "cancel_loop e pre tol0 s = (Inr tol, s1)"
  shows "runs s1 n = runs s n
     \<and> cancel_loop e (pre @ n # post) tol0 s =
       (case cancel_test e n tol s1 of
          (Inl x, s') \<Rightarrow> (Inl x, s')
        | (Inr tol', s') \<Rightarrow> cancel_loop e post tol' s')"
  using cancel_loop_other [OF assms(1), of e tol0 s] assms(2)
  by (simp add: cancel_loop_append)

lemma cancel_loop_prefix:
  assumes "\<forall>n test. runs s n = Some test \<longrightarrow> get_plugin e (scheduler test) \<noteq> None"
    and "list_all (\<lambda>n. runs s n \<noteq> None) (pre @ post)"
  shows "cancel_loop e pre tol0 s = (Inr (tol0 @ pre), snd (cancel_loop e pre tol0 s))"
proof -
  from assms(2) have "list_all (\<lambda>n. runs s n \<noteq> None) pre" by simp
  with cancel_loop_outcome [OF assms(1), of pre tol0]
  have "fst (cancel_loop e pre tol0 s) = Inr (tol0 @ pre)" by simp
  then show ?thesis by (cases "cancel_loop e pre tol0 s") simp
qed

lemma cancel_all_live:
  assumes "n \<notin> set pre" and "cancel_loop e pre [] s = (Inr tol, s1)"
    and "runs s n = Some test"
    and "get_plugin e (scheduler test) = Some sched"
    and "state (current (status test)) = RUNNING \<or> state (current (status test)) = SCHEDULED"
  shows "\<exists>test1 s2. cancel_test e n tol s1 = (Inr (tol @ [n]), s2)
     \<and> runs s2 = (runs s1)(n \<mapsto> test1)
     \<and> calls s2 = calls s1 @ [Cancel_job (scheduler test) n]
     \<and> printed s2 = printed s1 @ [Test_cancelled n]
     \<and> entries (status test1) = entries (status test) @
          [\<lparr>state = fst (sched n test), note_str = snd (sched n test), when_ts = clock e\<rparr>]
     \<and> current (status test1) =
          \<lparr>state = fst (sched n test), note_str = snd (sched n test), when_ts = clock e\<rparr>
     \<and> run_complete test1 \<and> scheduler test1 = scheduler test
     \<and> Cancel_job (scheduler test) n \<in> set (calls (snd (cancel_all e a (pre @ n # post) s)))
     \<and> Test_cancelled n \<in> set (printed (snd (cancel_all e a (pre @ n # post) s)))
     \<and> ((fst (sched n test) \<noteq> RUNNING \<and> fst (sched n test) \<noteq> SCHEDULED) \<or> n \<notin> set post \<longrightarrow>
          runs (snd (cancel_all e a (pre @ n # post) s)) n = Some test1)"
proof -
  let ?new = "\<lparr>state = fst (sched n test), note_str = snd (sched n test), when_ts = clock e\<rparr>"
  let ?test1 = "set_run_complete (test\<lparr>status := append_entry (status test) ?new\<rparr>)"
  let ?s2 = "fprint (Test_cancelled n) (called (Cancel_job (scheduler test) n) s1)
        \<lparr>runs := (runs s1)(n \<mapsto> ?test1)\<rparr>"
  note reach = cancel_loop_reach [OF assms(1,2), of post]
  from reach assms(3) have here: "runs s1 n = Some test" by simp
  have step: "cancel_test e n tol s1 = (Inr (tol @ [n]), ?s2)"
    using cancel_test_live [OF here assms(4,5), of tol] .
  have loop: "cancel_loop e (pre @ n # post) [] s = cancel_loop e post (tol @ [n]) ?s2"
    using reach step by simp
  have s2: "runs ?s2 = (runs s1)(n \<mapsto> ?test1)"
    "calls ?s2 = calls s1 @ [Cancel_job (scheduler test) n]"
    "printed ?s2 = printed s1 @ [Test_cancelled n]"
    by (simp_all add: fprint_def called_def)
  have t1: "entries (status ?test1) = entries (status test) @ [?new]"
    "current (status ?test1) = ?new" "run_complete ?test1" "scheduler ?test1 = scheduler test"
    by (simp_all add: set_run_complete_def entries_append_entry current_append_entry)
  have grow: "Cancel_job (scheduler test) n \<in> set (calls (snd (cancel_loop e post (tol @ [n]) ?s2)))"
    "Test_cancelled n \<in> set (printed (snd (cancel_loop e post (tol @ [n]) ?s2)))"
    using cancel_loop_grows [of "Cancel_job (scheduler test) n" ?s2 e post "tol @ [n]"
        "Test_cancelled n"] s2 by simp_all
  have fin: "runs (snd (cancel_loop e post (tol @ [n]) ?s2)) n = Some ?test1"
    if "(fst (sched n test) \<noteq> RUNNING \<and> fst (sched n test) \<noteq> SCHEDULED) \<or> n \<notin> set post"
  proof (cases "n \<notin> set post")
    case True
    from cancel_loop_other [OF True, of e "tol @ [n]" ?s2] s2(1) show ?thesis by simp
  next
    case False
    with that have "state (current (status ?test1)) \<noteq> RUNNING"
      "state (current (status ?test1)) \<noteq> SCHEDULED"
      by (simp_all add: t1(2))
    from cancel_loop_not_live [OF this, of ?s2 n e post "tol @ [n]" "scheduler test"] s2(1)
    show ?thesis by simp
  qed
  show ?thesis
    apply (rule exI [of _ ?test1], rule exI [of _ ?s2])
    using step s2 t1 grow fin
    by (simp add: cancel_all_state(1,2) cancel_all_state(3) loop)
qed

lemma cancel_all_skipped:
  assumes "n \<notin> set pre" and "cancel_loop e pre [] s = (Inr tol, s1)"
    and "runs s n = Some test"
    and "get_plugin e (scheduler test) = Some sched"
    and "state (current (status test)) \<noteq> RUNNING"
    and "state (current (status test)) \<noteq> SCHEDULED"
  shows "Test_could_not_be_cancelled n (state (current (status test)))
       \<in> set (printed (snd (cancel_all e a (pre @ n # post) s)))"
proof -
  let ?s2 = "fprint (Test_could_not_be_cancelled n (state (current (status test)))) s1"
  note reach = cancel_loop_reach [OF assms(1,2), of post]
  from reach assms(3) have here: "runs s1 n = Some test" by simp
  have step: "cancel_test e n tol s1 = (Inr (tol @ [n]), ?s2)"
    using cancel_test_skip [OF here assms(4,5,6), of tol] .
  have loop: "cancel_loop e (pre @ n # post) [] s = cancel_loop e post (tol @ [n]) ?s2"
    using reach step by simp
  have "Test_could_not_be_cancelled n (state (current (status test)))
      \<in> set (printed (snd (cancel_loop e post (tol @ [n]) ?s2)))"
    using cancel_loop_grows [of "Cancel_job (scheduler test) n" ?s2 e post "tol @ [n]"
        "Test_could_not_be_cancelled n (state (current (status test)))"] by simp
  then show ?thesis
    by (simp add: cancel_all_state(3) loop)
qed

subsection \<open>The command\<close>

lemma run_one_id:
  assumes "tests a = [i]" and "resolve_id e i [] s = (Inr test_list, s')"
  shows "run e a s = cancel_all e a test_list s'"
  using assms by (simp add: run_def args_tests_def run_tests_def)

lemma run_one_test:
  assumes "tests a = [i]" and "\<not> startswith_s i" and "py_int i = Some n"
  shows "run e a s = cancel_all e a [n] s"
  using assms by (simp add: run_def args_tests_def run_tests_def resolve_id_def)

lemma run_tests_tests_update:
  "run_tests e (a\<lparr>tests := ids'\<rparr>) ids s = run_tests e a ids s"
  by (simp add: run_tests_def cancel_all_tests_update split: prod.splits sum.splits)

lemma run_tests_nothing: "run_tests e a [] s = (Return 0, s)"
  by (simp add: run_tests_def cancel_all_def print_statuses_def cancel_failed_def)

lemma run_skip_report:
  assumes "runs s test_id = Some test"
    and "get_plugin e (scheduler test) = Some sched"
    and "state (current (status test)) \<noteq> RUNNING"
    and "state (current (status test)) \<noteq> SCHEDULED"
    and "tests a = [i]" and "\<not> startswith_s i" and "py_int i = Some test_id"
  shows "run e a s = print_statuses a [test_id]
           (fprint (Test_could_not_be_cancelled test_id (state (current (status test)))) s)"
  using cancel_test_skip [OF assms(1-4), of "[]"] run_one_test [OF assms(5-7), of e s]
  by (simp add: cancel_all_one)

lemma run_not_live:
  assumes "runs s n = Some test"
    and "state (current (status test)) \<noteq> RUNNING"
    and "state (current (status test)) \<noteq> SCHEDULED"
  shows "runs (snd (run e a s)) n = Some test
     \<and> (Cancel_job sch n \<in> set (calls (snd (run e a s))) \<longrightarrow> Cancel_job sch n \<in> set (calls s))"
proof -
  let ?ids = "args_tests e a"
  obtain x s1 where r: "resolve_loop e ?ids [] s = (x, s1)"
    by (cases "resolve_loop e ?ids [] s")
  have s1: "runs s1 n = Some test"
    using runs_resolve_loop [of e ?ids "[]" s] r assms(1) by simp
  have calls1: "Cancel_job sch n \<in> set (calls s1) \<Longrightarrow> Cancel_job sch n \<in> set (calls s)"
    using calls_resolve_loop [of sch n e ?ids "[]" s] r by simp
  show ?thesis
  proof (cases x)
    case (Inl y)
    with r s1 calls1 show ?thesis by (simp add: run_def run_tests_def)
  next
    case (Inr test_list)
    obtain y s2 where c: "cancel_loop e test_list [] s1 = (y, s2)"
      by (cases "cancel_loop e test_list [] s1")
    with cancel_loop_not_live [OF assms(2,3) s1, of e test_list "[]" sch]
    have "runs s2 n = Some test"
      "Cancel_job sch n \<in> set (calls s2) \<Longrightarrow> Cancel_job sch n \<in> set (calls s1)"
      by simp_all
    with calls1 have "runs (snd (cancel_all e a test_list s1)) n = Some test
      \<and> (Cancel_job sch n \<in> set (calls (snd (cancel_all e a test_list s1))) \<longrightarrow>
           Cancel_job sch n \<in> set (calls s))"
      using c by (cases y) (auto simp: cancel_all_def)
    with r Inr show ?thesis by (simp add: run_def run_tests_def)
  qed
qed

lemma run_times_not_live:
  assumes "state (current (status test)) \<noteq> RUNNING"
    and "state (current (status test)) \<noteq> SCHEDULED"
  shows "runs s n = Some test \<Longrightarrow>
     runs (run_times k e a s) n = Some test
     \<and> (Cancel_job sch n \<in> set (calls (run_times k e a s)) \<longrightarrow> Cancel_job sch n \<in> set (calls s))"
proof (induction k arbitrary: s)
  case 0
  then show ?case by simp
next
  case (Suc k)
  from run_not_live [OF Suc.prems assms, of e a sch]
  have once: "runs (snd (run e a s)) n = Some test"
    "Cancel_job sch n \<in> set (calls (snd (run e a s))) \<Longrightarrow> Cancel_job sch n \<in> set (calls s)"
    by simp_all
  from Suc.IH [OF once(1)] once(2) show ?case by auto
qed

lemma iterdir_loop_filter:
  "iterdir_loop user_id ds acc =
     acc @ map name (filter (\<lambda>test. st_uid test = user_id \<and> \<not> has_RUN_COMPLETE test) ds)"
  by (induction ds arbitrary: acc) simp_all

subsection \<open>The claims\<close>

text \<open>
  Claim C1, as the code has it. A resolution failure ends the command where it happens,
  with \<open>EINVAL\<close>. An identifier that does not resolve (a test id that is not a
  number, a series that is not found or not valid) is reported, and \<open>run\<close> returns
  before the second loop: no run has been touched, and the identifiers after it are not
  looked at. A run id that cannot be loaded is reported, and \<open>run\<close> returns from the
  second loop: the runs before it in the test list have been processed, the runs after
  it are not.
\<close>

theorem C1_resolution_failure_ends_run:
  "(tests a = pre @ bad # post \<and> resolve_loop e pre [] s = (Inr test_list, s1)
      \<and> resolution_failure e bad = Some m \<longrightarrow>
    run e a s = (Return EINVAL, fprint m s1) \<and> runs (fprint m s1) = runs s)
   \<and> (tests a' \<noteq> [] \<and> resolve_loop e (tests a') [] s = (Inr (before @ n # after), s2)
      \<and> cancel_loop e before [] s2 = (Inr tol, s3) \<and> runs s3 n = None \<longrightarrow>
    run e a' s = (Return EINVAL, fprint (Test_cannot_be_found n) s3))"
proof (intro conjI impI)
  assume h: "tests a = pre @ bad # post \<and> resolve_loop e pre [] s = (Inr test_list, s1)
      \<and> resolution_failure e bad = Some m"
  then have "resolve_id e bad test_list s1 = (Inl (Return EINVAL), fprint m s1)"
    by (simp add: resolve_id_failure)
  with h show "run e a s = (Return EINVAL, fprint m s1)"
    by (simp add: run_def args_tests_def run_tests_def resolve_loop_append)
  from h runs_resolve_loop [of e pre "[]" s] show "runs (fprint m s1) = runs s"
    by simp
next
  assume h: "tests a' \<noteq> [] \<and> resolve_loop e (tests a') [] s = (Inr (before @ n # after), s2)
      \<and> cancel_loop e before [] s2 = (Inr tol, s3) \<and> runs s3 n = None"
  then have "cancel_test e n tol s3 = (Inl (Return EINVAL), fprint (Test_cannot_be_found n) s3)"
    by (simp add: cancel_test_not_found)
  with h show "run e a' s = (Return EINVAL, fprint (Test_cannot_be_found n) s3)"
    by (simp add: run_def args_tests_def run_tests_def cancel_all_def cancel_loop_append)
qed

theorem C1_resolution_failure_ends_run_witness:
  "tests (ex_args [''42'', ''abc'', ''7'']) = [''42''] @ ''abc'' # [''7'']
   \<and> resolve_loop ex_env [''42''] [] ex_st = (Inr [42], ex_st)
   \<and> resolution_failure ex_env ''abc'' = Some (Test_not_valid ''abc'')
   \<and> run ex_env (ex_args [''42'', ''abc'', ''7'']) ex_st
       = (Return EINVAL, fprint (Test_not_valid ''abc'') ex_st)
   \<and> runs (fprint (Test_not_valid ''abc'') ex_st) = runs ex_st
   \<and> tests (ex_args [''42'', ''99'', ''7'']) \<noteq> []
   \<and> resolve_loop ex_env (tests (ex_args [''42'', ''99'', ''7''])) [] ex_st
       = (Inr ([42] @ 99 # [7]), ex_st)
   \<and> fst (cancel_loop ex_env [42] [] ex_st) = Inr [42]
   \<and> runs (snd (cancel_loop ex_env [42] [] ex_st)) 99 = None
   \<and> run ex_env (ex_args [''42'', ''99'', ''7'']) ex_st
       = (Return EINVAL, fprint (Test_cannot_be_found 99) (snd (cancel_loop ex_env [42] [] ex_st)))
   \<and> printed (snd (run ex_env (ex_args [''42'', ''99'', ''7'']) ex_st))
       = [Test_cancelled 42, Test_cannot_be_found 99]"
proof -
  have h1: "tests (ex_args [''42'', ''abc'', ''7'']) = [''42''] @ ''abc'' # [''7'']"
    by (simp add: ex_args_def)
  have h2: "resolve_loop ex_env [''42''] [] ex_st = (Inr [42], ex_st)"
    by (simp add: resolve_id_def startswith_s_def py_int_42)
  have h3: "resolution_failure ex_env ''abc'' = Some (Test_not_valid ''abc'')"
    by (simp add: resolution_failure_def startswith_s_def py_int_abc)
  have h4: "tests (ex_args [''42'', ''99'', ''7'']) \<noteq> []"
    by (simp add: ex_args_def)
  have h5: "resolve_loop ex_env (tests (ex_args [''42'', ''99'', ''7''])) [] ex_st
       = (Inr ([42] @ 99 # [7]), ex_st)"
    by (simp add: ex_args_def resolve_id_def startswith_s_def py_int_42 py_int_99 py_int_7)
  have h6: "fst (cancel_loop ex_env [42] [] ex_st) = Inr [42]"
    by (simp add: run_defs ex_defs)
  then have h6': "cancel_loop ex_env [42] [] ex_st = (Inr [42], snd (cancel_loop ex_env [42] [] ex_st))"
    by (cases "cancel_loop ex_env [42] [] ex_st") simp
  have h7: "runs (snd (cancel_loop ex_env [42] [] ex_st)) 99 = None"
    by (simp add: run_defs ex_defs)
  have p: "printed (snd (cancel_loop ex_env [42] [] ex_st)) = [Test_cancelled 42]"
    by (simp add: run_defs ex_defs)
  from C1_resolution_failure_ends_run [where a = "ex_args [''42'', ''abc'', ''7'']"
      and pre = "[''42'']" and bad = "''abc''" and post = "[''7'']" and e = ex_env and s = ex_st
      and test_list = "[42]" and ?s1.0 = ex_st and m = "Test_not_valid ''abc''"
      and a' = "ex_args [''42'', ''99'', ''7'']" and before = "[42]" and n = 99
      and after = "[7]" and ?s2.0 = ex_st and tol = "[42]"
      and ?s3.0 = "snd (cancel_loop ex_env [42] [] ex_st)"]
    h1 h2 h3 h4 h5 h6' h7
  have "run ex_env (ex_args [''42'', ''abc'', ''7'']) ex_st
       = (Return EINVAL, fprint (Test_not_valid ''abc'') ex_st)"
    "runs (fprint (Test_not_valid ''abc'') ex_st) = runs ex_st"
    "run ex_env (ex_args [''42'', ''99'', ''7'']) ex_st
       = (Return EINVAL, fprint (Test_cannot_be_found 99) (snd (cancel_loop ex_env [42] [] ex_st)))"
    by blast+
  with h1 h2 h3 h4 h5 h6 h7 p show ?thesis
    by simp
qed

text \<open>
  Claim C1 as stated fails on the batches \<open>abc 42\<close> and \<open>42 abc\<close>, where run 42 is
  RUNNING: the command returns \<open>EINVAL\<close> for \<open>abc\<close>, and run 42 is neither cancelled
  nor reported.
\<close>

theorem C1_batch_counterexample:
  "state (current (status (the (runs ex_st 42)))) = RUNNING
   \<and> fst (run ex_env (ex_args [''abc'', ''42'']) ex_st) = Return 22
   \<and> runs (snd (run ex_env (ex_args [''abc'', ''42'']) ex_st)) 42 = runs ex_st 42
   \<and> printed (snd (run ex_env (ex_args [''abc'', ''42'']) ex_st)) = [Test_not_valid ''abc'']
   \<and> calls (snd (run ex_env (ex_args [''abc'', ''42'']) ex_st)) = []
   \<and> fst (run ex_env (ex_args [''42'', ''abc'']) ex_st) = Return 22
   \<and> runs (snd (run ex_env (ex_args [''42'', ''abc'']) ex_st)) 42 = runs ex_st 42
   \<and> printed (snd (run ex_env (ex_args [''42'', ''abc'']) ex_st)) = [Test_not_valid ''abc'']
   \<and> calls (snd (run ex_env (ex_args [''42'', ''abc'']) ex_st)) = []"
  by (simp add: run_defs ex_defs py_int_42 py_int_abc startswith_s_def)

text \<open>
  Claim C2, as the code has it. A run of the test list whose current state is RUNNING or
  SCHEDULED, and whose scheduler is registered, is cancelled when the second loop reaches
  it, that is when the runs before it in the test list have been processed without the
  command ending: the scheduler's \<open>cancel_job\<close> is called, the state and note it
  returns are appended to the status file as one new entry, which is then the current
  one, the run is marked complete and ``Test cancelled'' is printed. This holds in any
  batch, for a run named directly or through a series. When the command ends, the run has
  exactly that one new entry, provided the state returned is not RUNNING or SCHEDULED or
  the run is not in the rest of the test list. The witness is the scenario of run 42,
  RUNNING, whose scheduler answers (CANCELLED, ``terminated by user''), behind the three
  runs of a series.
\<close>

theorem C2_cancel_live_run:
  assumes "resolve_loop e (args_tests e a) [] s = (Inr (pre @ test_id # post), s0)"
    and "test_id \<notin> set pre"
    and "cancel_loop e pre [] s0 = (Inr tol, s1)"
    and "runs s test_id = Some test"
    and "get_plugin e (scheduler test) = Some sched"
    and "state (current (status test)) = RUNNING \<or> state (current (status test)) = SCHEDULED"
  shows "\<exists>test1 s2. cancel_test e test_id tol s1 = (Inr (tol @ [test_id]), s2)
     \<and> runs s2 = (runs s1)(test_id \<mapsto> test1)
     \<and> calls s2 = calls s1 @ [Cancel_job (scheduler test) test_id]
     \<and> printed s2 = printed s1 @ [Test_cancelled test_id]
     \<and> entries (status test1) = entries (status test) @
          [\<lparr>state = fst (sched test_id test), note_str = snd (sched test_id test),
            when_ts = clock e\<rparr>]
     \<and> current (status test1) =
          \<lparr>state = fst (sched test_id test), note_str = snd (sched test_id test),
           when_ts = clock e\<rparr>
     \<and> run_complete test1 \<and> scheduler test1 = scheduler test
     \<and> Cancel_job (scheduler test) test_id \<in> set (calls (snd (run e a s)))
     \<and> Test_cancelled test_id \<in> set (printed (snd (run e a s)))
     \<and> ((fst (sched test_id test) \<noteq> RUNNING \<and> fst (sched test_id test) \<noteq> SCHEDULED)
          \<or> test_id \<notin> set post \<longrightarrow>
          runs (snd (run e a s)) test_id = Some test1)"
proof -
  have r: "run e a s = cancel_all e a (pre @ test_id # post) s0"
    using assms(1) by (simp add: run_def run_tests_def)
  have "runs s0 = runs s"
    using runs_resolve_loop [of e "args_tests e a" "[]" s] assms(1) by simp
  with assms(4) have here: "runs s0 test_id = Some test" by simp
  from cancel_all_live [OF assms(2,3) here assms(5,6), of a post] show ?thesis
    unfolding r .
qed

theorem C2_cancel_live_run_witness:
  "resolve_loop ex_env (args_tests ex_env (ex_args [''s7'', ''42''])) [] ex_st
     = (Inr ([10, 11, 12] @ 42 # []),
        fprint (Unable_to_kill ''s7'' 4321) (called (Killpg 4321) ex_st))
   \<and> 42 \<notin> set [10, 11, 12 :: int]
   \<and> fst (cancel_loop ex_env [10, 11, 12] []
          (fprint (Unable_to_kill ''s7'' 4321) (called (Killpg 4321) ex_st))) = Inr [10, 11, 12]
   \<and> runs ex_st 42 = Some (ex_run RUNNING)
   \<and> get_plugin ex_env (scheduler (ex_run RUNNING))
       = Some (\<lambda>test_id test. (CANCELLED, ''terminated by user''))
   \<and> state (current (status (ex_run RUNNING))) = RUNNING
   \<and> fst (run ex_env (ex_args [''s7'', ''42'']) ex_st) = Return 0
   \<and> entries (status (the (runs (snd (run ex_env (ex_args [''s7'', ''42'']) ex_st)) 42)))
       = entries (status (ex_run RUNNING))
         @ [\<lparr>state = CANCELLED, note_str = ''terminated by user'', when_ts = 9\<rparr>]
   \<and> state (current (status (the (runs (snd (run ex_env (ex_args [''s7'', ''42'']) ex_st)) 42))))
       = CANCELLED
   \<and> run_complete (the (runs (snd (run ex_env (ex_args [''s7'', ''42'']) ex_st)) 42))
   \<and> Cancel_job ''slurm'' 42 \<in> set (calls (snd (run ex_env (ex_args [''s7'', ''42'']) ex_st)))
   \<and> Test_cancelled 42 \<in> set (printed (snd (run ex_env (ex_args [''s7'', ''42'']) ex_st)))"
proof -
  let ?a = "ex_args [''s7'', ''42'']"
  let ?s0 = "fprint (Unable_to_kill ''s7'' 4321) (called (Killpg 4321) ex_st)"
  let ?s1 = "snd (cancel_loop ex_env [10, 11, 12] [] ?s0)"
  have h1: "resolve_loop ex_env (args_tests ex_env ?a) [] ex_st = (Inr ([10, 11, 12] @ 42 # []), ?s0)"
    by (simp add: args_tests_def ex_args_def resolve_id_def kill_series_def ex_env_def
        py_int_42 startswith_s_def)
  have h2: "42 \<notin> set [10, 11, 12 :: int]"
    by simp
  have h3': "fst (cancel_loop ex_env [10, 11, 12] [] ?s0) = Inr [10, 11, 12]"
    by (simp add: run_defs ex_defs)
  then have h3: "cancel_loop ex_env [10, 11, 12] [] ?s0 = (Inr [10, 11, 12], ?s1)"
    by (cases "cancel_loop ex_env [10, 11, 12] [] ?s0") simp
  have h4: "runs ex_st 42 = Some (ex_run RUNNING)"
    by (simp add: ex_defs)
  have h5: "get_plugin ex_env (scheduler (ex_run RUNNING))
       = Some (\<lambda>test_id test. (CANCELLED, ''terminated by user''))"
    by (simp add: ex_defs)
  have h6: "state (current (status (ex_run RUNNING))) = RUNNING
       \<or> state (current (status (ex_run RUNNING))) = SCHEDULED"
    by (simp add: ex_defs current_def)
  from C2_cancel_live_run [OF h1 h2 h3 h4 h5 h6]
  obtain test1 where t: "runs (snd (run ex_env ?a ex_st)) 42 = Some test1"
      "entries (status test1) = entries (status (ex_run RUNNING))
         @ [\<lparr>state = CANCELLED, note_str = ''terminated by user'', when_ts = clock ex_env\<rparr>]"
      "current (status test1)
         = \<lparr>state = CANCELLED, note_str = ''terminated by user'', when_ts = clock ex_env\<rparr>"
      "run_complete test1"
      "Cancel_job (scheduler (ex_run RUNNING)) 42 \<in> set (calls (snd (run ex_env ?a ex_st)))"
      "Test_cancelled 42 \<in> set (printed (snd (run ex_env ?a ex_st)))"
    by auto
  have ret: "fst (run ex_env ?a ex_st) = Return 0"
    by (simp add: run_defs ex_defs py_int_42 startswith_s_def)
  have c: "clock ex_env = 9" "scheduler (ex_run RUNNING) = ''slurm''"
    "state (current (status (ex_run RUNNING))) = RUNNING"
    by (simp_all add: ex_defs current_def)
  from h1 h2 h3' h4 h5 t ret c show ?thesis
    by simp
qed

text \<open>
  Claim C2 as stated fails on the batch \<open>99 42\<close>, where run 42 is RUNNING and no run
  99 exists: both identifiers resolve, the test list is \<open>[99, 42]\<close>, the command returns
  \<open>EINVAL\<close> when run 99 cannot be loaded, and run 42 is not cancelled.
\<close>

theorem C2_unreached_counterexample:
  "resolve_loop ex_env (args_tests ex_env (ex_args [''99'', ''42''])) [] ex_st
     = (Inr [99, 42], ex_st)
   \<and> state (current (status (the (runs ex_st 42)))) = RUNNING
   \<and> fst (run ex_env (ex_args [''99'', ''42'']) ex_st) = Return 22
   \<and> runs (snd (run ex_env (ex_args [''99'', ''42'']) ex_st)) 42 = runs ex_st 42
   \<and> calls (snd (run ex_env (ex_args [''99'', ''42'']) ex_st)) = []
   \<and> printed (snd (run ex_env (ex_args [''99'', ''42'']) ex_st)) = [Test_cannot_be_found 99]"
  by (simp add: run_defs ex_defs py_int_42 py_int_99 startswith_s_def)

text \<open>
  Claim C3. A run whose current state is COMPLETE, CANCELLED or ERROR is left as it is by
  the command, whatever identifiers the command is given and however often it is invoked:
  the run, and so its status file, is the same afterwards, and no \<open>cancel_job\<close> for the
  run is among the calls made. When the run is the one identifier given and its scheduler
  is registered, each further invocation prints the terminal state the run has and
  returns 0.
\<close>

theorem C3_terminal_run_noop:
  assumes "runs s test_id = Some test"
    and "terminal (state (current (status test)))"
  shows "runs (run_times n e a s) test_id = Some test
     \<and> (Cancel_job sch test_id \<in> set (calls (run_times n e a s)) \<longrightarrow>
          Cancel_job sch test_id \<in> set (calls s))
     \<and> (tests a = [i] \<and> \<not> startswith_s i \<and> py_int i = Some test_id
          \<and> get_plugin e (scheduler test) \<noteq> None \<longrightarrow>
          fst (run e a (run_times n e a s)) = Return 0
          \<and> printed (snd (run e a (run_times n e a s))) =
              printed (run_times n e a s)
              @ [Test_could_not_be_cancelled test_id (state (current (status test)))]
              @ (if status_arg a then [Statuses [test_id] (json_arg a)] else []))"
proof -
  note live = terminal_not_live [OF assms(2)]
  have keep: "runs (run_times n e a s) test_id = Some test
     \<and> (Cancel_job sch test_id \<in> set (calls (run_times n e a s)) \<longrightarrow>
          Cancel_job sch test_id \<in> set (calls s))"
    using run_times_not_live [OF _ _ assms(1), of n e a sch] live by simp
  then have here: "runs (run_times n e a s) test_id = Some test" by simp
  have "fst (run e a (run_times n e a s)) = Return 0
      \<and> printed (snd (run e a (run_times n e a s))) =
          printed (run_times n e a s)
          @ [Test_could_not_be_cancelled test_id (state (current (status test)))]
          @ (if status_arg a then [Statuses [test_id] (json_arg a)] else [])"
    if "tests a = [i]" "\<not> startswith_s i" "py_int i = Some test_id"
      "get_plugin e (scheduler test) = Some sched" for sched
    using run_skip_report [OF here that(4) _ _ that(1-3)] live
    by (simp add: print_statuses_def cancel_failed_def)
  with keep show ?thesis by auto
qed

theorem C3_terminal_run_noop_witness:
  "runs ex_st 11 = Some (ex_run COMPLETE)
   \<and> terminal (state (current (status (ex_run COMPLETE))))
   \<and> tests (ex_args [''11'']) = [''11''] \<and> \<not> startswith_s ''11'' \<and> py_int ''11'' = Some 11
   \<and> get_plugin ex_env (scheduler (ex_run COMPLETE)) \<noteq> None
   \<and> runs (run_times 3 ex_env (ex_args [''11'']) ex_st) 11 = Some (ex_run COMPLETE)
   \<and> Cancel_job ''slurm'' 11 \<notin> set (calls (run_times 3 ex_env (ex_args [''11'']) ex_st))
   \<and> fst (run ex_env (ex_args [''11'']) (run_times 3 ex_env (ex_args [''11'']) ex_st)) = Return 0
   \<and> printed (snd (run ex_env (ex_args [''11'']) (run_times 3 ex_env (ex_args [''11'']) ex_st)))
       = printed (run_times 3 ex_env (ex_args [''11'']) ex_st)
         @ [Test_could_not_be_cancelled 11 COMPLETE]"
proof -
  have h1: "runs ex_st 11 = Some (ex_run COMPLETE)"
    by (simp add: ex_defs)
  have h2: "terminal (state (current (status (ex_run COMPLETE))))"
    by (simp add: ex_defs current_def terminal_def)
  have h3: "tests (ex_args [''11'']) = [''11'']" "\<not> startswith_s ''11''" "py_int ''11'' = Some 11"
    by (simp_all add: ex_args_def int_defs)
  have h4: "get_plugin ex_env (scheduler (ex_run COMPLETE)) \<noteq> None"
    by (simp add: ex_defs)
  have h5: "state (current (status (ex_run COMPLETE))) = COMPLETE" "\<not> status_arg (ex_args [''11''])"
    "Cancel_job ''slurm'' 11 \<notin> set (calls ex_st)"
    by (simp_all add: ex_defs current_def)
  show ?thesis
    using C3_terminal_run_noop [OF h1 h2, where n = 3 and e = ex_env and a = "ex_args [''11'']"
        and sch = "''slurm''" and i = "''11''"] h1 h2 h3 h4 h5
    by auto
qed

text \<open>
  Claim C4, as the code has it. A run whose current state is CREATED is not cancelled: the
  guard of line 126 lets only RUNNING and SCHEDULED through. Whatever identifiers the
  command is given, the run is the same afterwards and no \<open>cancel_job\<close> for it is among
  the calls made; when its scheduler is registered, the body of the second loop reports
  it as ``could not be cancelled'' with its state CREATED and changes nothing else.
\<close>

theorem C4_created_run_skipped:
  assumes "runs s test_id = Some test"
    and "state (current (status test)) = CREATED"
  shows "runs (snd (run e a s)) test_id = Some test
     \<and> (Cancel_job sch test_id \<in> set (calls (snd (run e a s))) \<longrightarrow>
          Cancel_job sch test_id \<in> set (calls s))
     \<and> (get_plugin e (scheduler test) \<noteq> None \<longrightarrow>
          cancel_test e test_id tol s =
            (Inr (tol @ [test_id]), fprint (Test_could_not_be_cancelled test_id CREATED) s))
     \<and> (get_plugin e (scheduler test) \<noteq> None \<and> tests a = [i] \<and> \<not> startswith_s i
          \<and> py_int i = Some test_id \<longrightarrow>
          run e a s = print_statuses a [test_id]
            (fprint (Test_could_not_be_cancelled test_id CREATED) s))"
proof -
  have live: "state (current (status test)) \<noteq> RUNNING" "state (current (status test)) \<noteq> SCHEDULED"
    using assms(2) by simp_all
  have "cancel_test e test_id tol s =
            (Inr (tol @ [test_id]), fprint (Test_could_not_be_cancelled test_id CREATED) s)"
    if "get_plugin e (scheduler test) = Some sched" for sched
    using cancel_test_skip [OF assms(1) that live, of tol] assms(2) by simp
  moreover have "run e a s = print_statuses a [test_id]
            (fprint (Test_could_not_be_cancelled test_id CREATED) s)"
    if "get_plugin e (scheduler test) = Some sched" "tests a = [i]" "\<not> startswith_s i"
      "py_int i = Some test_id" for sched
    using run_skip_report [OF assms(1) that(1) live that(2-4)] assms(2) by simp
  ultimately show ?thesis
    using run_not_live [OF assms(1) live, of e a sch] by auto
qed

theorem C4_created_run_skipped_witness:
  "runs ex_st 7 = Some (ex_run CREATED)
   \<and> state (current (status (ex_run CREATED))) = CREATED
   \<and> get_plugin ex_env (scheduler (ex_run CREATED)) \<noteq> None
   \<and> tests (ex_args [''7'']) = [''7''] \<and> \<not> startswith_s ''7'' \<and> py_int ''7'' = Some 7
   \<and> runs (snd (run ex_env (ex_args [''7'']) ex_st)) 7 = Some (ex_run CREATED)
   \<and> Cancel_job ''slurm'' 7 \<notin> set (calls (snd (run ex_env (ex_args [''7'']) ex_st)))
   \<and> cancel_test ex_env 7 [] ex_st
       = (Inr [7], fprint (Test_could_not_be_cancelled 7 CREATED) ex_st)
   \<and> run ex_env (ex_args [''7'']) ex_st
       = (Return 0, fprint (Test_could_not_be_cancelled 7 CREATED) ex_st)"
proof -
  have h1: "runs ex_st 7 = Some (ex_run CREATED)"
    by (simp add: ex_defs)
  have h2: "state (current (status (ex_run CREATED))) = CREATED"
    by (simp add: ex_defs current_def)
  have h3: "get_plugin ex_env (scheduler (ex_run CREATED)) \<noteq> None"
    by (simp add: ex_defs)
  have h4: "tests (ex_args [''7'']) = [''7'']" "\<not> startswith_s ''7''" "py_int ''7'' = Some 7"
    by (simp_all add: ex_args_def startswith_s_def py_int_7)
  have h5: "\<not> status_arg (ex_args [''7''])" "Cancel_job ''slurm'' 7 \<notin> set (calls ex_st)"
    by (simp_all add: ex_defs)
  show ?thesis
    using C4_created_run_skipped [OF h1 h2, where e = ex_env and a = "ex_args [''7'']"
        and sch = "''slurm''" and tol = "[]" and i = "''7''"] h1 h2 h3 h4 h5
    by (auto simp: print_statuses_def cancel_failed_def)
qed

text \<open>
  Claim C4 as stated fails on run 7, which is CREATED: after the command its status file
  is the same, no scheduler was called, and the run is reported as not cancellable.
\<close>

theorem C4_created_counterexample:
  "state (current (status (the (runs ex_st 7)))) = CREATED
   \<and> fst (run ex_env (ex_args [''7'']) ex_st) = Return 0
   \<and> runs (snd (run ex_env (ex_args [''7'']) ex_st)) 7 = runs ex_st 7
   \<and> calls (snd (run ex_env (ex_args [''7'']) ex_st)) = []
   \<and> printed (snd (run ex_env (ex_args [''7'']) ex_st)) = [Test_could_not_be_cancelled 7 CREATED]"
  by (simp add: run_defs ex_defs py_int_7 startswith_s_def)

text \<open>
  Claim C5. When the process group recorded for a series is gone, \<open>os.killpg\<close> raises
  \<open>ProcessLookupError\<close>; the command prints ``Unable to kill'' and goes on: the
  first loop continues with the members of the series added to the test list, and for a
  series given alone \<open>run\<close> is the second loop over its members.
\<close>

theorem C5_no_such_process_group:
  assumes "startswith_s sid" and "get_pgid e sid = Inr (Some pgid)" and "pgid \<noteq> 0"
    and "from_id_tests e sid = Inr members"
    and "killpg e pgid = ProcessLookupError"
  shows "resolve_loop e (sid # rest) test_list s
       = resolve_loop e rest (test_list @ members)
           (fprint (Unable_to_kill sid pgid) (called (Killpg pgid) s))
     \<and> (tests a = [sid] \<longrightarrow>
          run e a s = cancel_all e a members
            (fprint (Unable_to_kill sid pgid) (called (Killpg pgid) s)))"
proof -
  have "resolve_id e sid acc s
      = (Inr (acc @ members), fprint (Unable_to_kill sid pgid) (called (Killpg pgid) s))" for acc
    using assms(1,2,4) kill_series_no_process [OF assms(3,5)] by (rule resolve_id_series)
  from this [of test_list] this [of "[]"] show ?thesis
    by (simp add: run_one_id)
qed

theorem C5_no_such_process_group_witness:
  "startswith_s ''s7'' \<and> get_pgid ex_env ''s7'' = Inr (Some 4321) \<and> (4321::int) \<noteq> 0
   \<and> from_id_tests ex_env ''s7'' = Inr [10, 11, 12]
   \<and> killpg ex_env 4321 = ProcessLookupError
   \<and> tests (ex_args [''s7'']) = [''s7'']
   \<and> fst (run ex_env (ex_args [''s7'']) ex_st) = Return 0
   \<and> printed (snd (run ex_env (ex_args [''s7'']) ex_st))
       = [Unable_to_kill ''s7'' 4321, Test_cancelled 10,
          Test_could_not_be_cancelled 11 COMPLETE, Test_cancelled 12]
   \<and> calls (snd (run ex_env (ex_args [''s7'']) ex_st))
       = [Killpg 4321, Cancel_job ''slurm'' 10, Cancel_job ''slurm'' 12]"
proof -
  have h: "startswith_s ''s7''" "get_pgid ex_env ''s7'' = Inr (Some 4321)" "(4321::int) \<noteq> 0"
    "from_id_tests ex_env ''s7'' = Inr [10, 11, 12]" "killpg ex_env 4321 = ProcessLookupError"
    by (simp_all add: startswith_s_def ex_env_def)
  have t: "tests (ex_args [''s7'']) = [''s7'']"
    by (simp add: ex_args_def)
  have r: "run ex_env (ex_args [''s7'']) ex_st
      = cancel_all ex_env (ex_args [''s7'']) [10, 11, 12]
          (fprint (Unable_to_kill ''s7'' 4321) (called (Killpg 4321) ex_st))"
    using C5_no_such_process_group [OF h, where a = "ex_args [''s7'']"] t by simp
  have "fst (run ex_env (ex_args [''s7'']) ex_st) = Return 0"
    "printed (snd (run ex_env (ex_args [''s7'']) ex_st))
       = [Unable_to_kill ''s7'' 4321, Test_cancelled 10,
          Test_could_not_be_cancelled 11 COMPLETE, Test_cancelled 12]"
    "calls (snd (run ex_env (ex_args [''s7'']) ex_st))
       = [Killpg 4321, Cancel_job ''slurm'' 10, Cancel_job ''slurm'' 12]"
    unfolding r by (simp_all add: run_defs ex_defs)
  with h t show ?thesis by simp
qed

text \<open>
  Claim C6. For a series whose PGID is \<open>None\<close> or 0 the command sends no signal and
  prints nothing: the state is unchanged by the first loop, the members of the series are
  added to the test list, and for a series given alone \<open>run\<close> is the second loop over
  its members, with no \<open>killpg\<close> among its calls. Each member then goes through the
  second loop: when the members are distinct, can all be loaded and have their schedulers
  registered, \<open>run\<close> returns 0, every member that is RUNNING or SCHEDULED has been
  cancelled (its scheduler called, one entry appended, marked complete), and every other
  member is unchanged and reported with its state.
\<close>

theorem C6_series_without_pgid:
  assumes "startswith_s sid" and "get_pgid e sid = Inr series_pgid"
    and "series_pgid = None \<or> series_pgid = Some 0"
    and "from_id_tests e sid = Inr members"
  shows "resolve_loop e (sid # rest) test_list s = resolve_loop e rest (test_list @ members) s
     \<and> (tests a = [sid] \<longrightarrow> run e a s = cancel_all e a members s)
     \<and> (tests a = [sid] \<and> Killpg p \<in> set (calls (snd (run e a s))) \<longrightarrow>
          Killpg p \<in> set (calls s))
     \<and> (tests a = [sid] \<and> distinct members \<and> list_all (\<lambda>n. runs s n \<noteq> None) members
          \<and> (\<forall>n test. runs s n = Some test \<longrightarrow> get_plugin e (scheduler test) \<noteq> None)
          \<and> m \<in> set members \<and> runs s m = Some test \<and> get_plugin e (scheduler test) = Some sched
        \<longrightarrow>
          fst (run e a s) = Return 0
          \<and> (if state (current (status test)) = RUNNING
                 \<or> state (current (status test)) = SCHEDULED
              then Cancel_job (scheduler test) m \<in> set (calls (snd (run e a s)))
                \<and> Test_cancelled m \<in> set (printed (snd (run e a s)))
                \<and> (\<exists>test1. runs (snd (run e a s)) m = Some test1 \<and> run_complete test1
                     \<and> entries (status test1) = entries (status test) @
                          [\<lparr>state = fst (sched m test), note_str = snd (sched m test),
                            when_ts = clock e\<rparr>])
              else runs (snd (run e a s)) m = Some test
                \<and> Test_could_not_be_cancelled m (state (current (status test)))
                     \<in> set (printed (snd (run e a s)))))"
proof -
  have step: "resolve_id e sid acc s = (Inr (acc @ members), s)" for acc
    using assms(1,2,4) kill_series_no_pgid [OF assms(3)] by (rule resolve_id_series)
  have loop: "resolve_loop e (sid # rest) test_list s = resolve_loop e rest (test_list @ members) s"
    using step [of test_list] by simp
  have alone: "run e a s = cancel_all e a members s" if "tests a = [sid]"
    using run_one_id [OF that, of e s members s] step [of "[]"] by simp
  have quiet: "Killpg p \<in> set (calls s)"
    if "tests a = [sid]" "Killpg p \<in> set (calls (snd (run e a s)))"
    using that cancel_loop_no_killpg [of p e members "[]" s]
    by (simp add: alone cancel_all_state(2))
  have each: "fst (run e a s) = Return 0
          \<and> (if state (current (status test)) = RUNNING
                 \<or> state (current (status test)) = SCHEDULED
              then Cancel_job (scheduler test) m \<in> set (calls (snd (run e a s)))
                \<and> Test_cancelled m \<in> set (printed (snd (run e a s)))
                \<and> (\<exists>test1. runs (snd (run e a s)) m = Some test1 \<and> run_complete test1
                     \<and> entries (status test1) = entries (status test) @
                          [\<lparr>state = fst (sched m test), note_str = snd (sched m test),
                            when_ts = clock e\<rparr>])
              else runs (snd (run e a s)) m = Some test
                \<and> Test_could_not_be_cancelled m (state (current (status test)))
                     \<in> set (printed (snd (run e a s))))"
    if a: "tests a = [sid]" and d: "distinct members"
      and l: "list_all (\<lambda>n. runs s n \<noteq> None) members"
      and g: "\<forall>n test. runs s n = Some test \<longrightarrow> get_plugin e (scheduler test) \<noteq> None"
      and m: "m \<in> set members" and t: "runs s m = Some test"
      and p: "get_plugin e (scheduler test) = Some sched"
  proof -
    note r = alone [OF a]
    from cancel_loop_outcome [OF g, of members "[]"] l
    have "fst (cancel_loop e members [] s) = Inr members" by simp
    then have ret: "fst (run e a s) = Return 0"
      by (cases "cancel_loop e members [] s")
        (simp add: r cancel_all_def print_statuses_def cancel_failed_def)
    from m obtain pre post where split: "members = pre @ m # post"
      by (auto dest: split_list)
    with d have out: "m \<notin> set pre" "m \<notin> set post" by auto
    from l split have "list_all (\<lambda>n. runs s n \<noteq> None) (pre @ (m # post))" by simp
    from cancel_loop_prefix [OF g this, of "[]"]
    have reach: "cancel_loop e pre [] s = (Inr ([] @ pre), snd (cancel_loop e pre [] s))" .
    show ?thesis
    proof (cases "state (current (status test)) = RUNNING
        \<or> state (current (status test)) = SCHEDULED")
      case True
      from cancel_all_live [OF out(1) reach t p True, of a post] out(2)
      show ?thesis using True ret unfolding r split by auto
    next
      case False
      then have nl: "state (current (status test)) \<noteq> RUNNING"
        "state (current (status test)) \<noteq> SCHEDULED" by simp_all
      have "runs (snd (cancel_loop e members [] s)) m = Some test"
        using cancel_loop_not_live [OF nl t, of e members "[]" "scheduler test"] by simp
      moreover note cancel_all_skipped [OF out(1) reach t p nl, of a post]
      ultimately show ?thesis
        using False ret unfolding r split by (simp add: cancel_all_state(1))
    qed
  qed
  from loop alone quiet each show ?thesis by blast
qed

theorem C6_series_without_pgid_witness:
  "startswith_s ''s9'' \<and> get_pgid ex_env9 ''s9'' = Inr (Some 0)
   \<and> from_id_tests ex_env9 ''s9'' = Inr [10, 11, 12]
   \<and> tests (ex_args [''s9'']) = [''s9''] \<and> distinct [10, 11, 12 :: int]
   \<and> list_all (\<lambda>n. runs ex_st n \<noteq> None) [10, 11, 12]
   \<and> (\<forall>n. case runs ex_st n of None \<Rightarrow> True
            | Some test \<Rightarrow> get_plugin ex_env9 (scheduler test) \<noteq> None)
   \<and> runs ex_st 12 = Some (ex_run SCHEDULED)
   \<and> state (current (status (ex_run SCHEDULED))) = SCHEDULED
   \<and> fst (run ex_env9 (ex_args [''s9'']) ex_st) = Return 0
   \<and> Cancel_job ''slurm'' 12 \<in> set (calls (snd (run ex_env9 (ex_args [''s9'']) ex_st)))
   \<and> Test_cancelled 12 \<in> set (printed (snd (run ex_env9 (ex_args [''s9'']) ex_st)))
   \<and> run_complete (the (runs (snd (run ex_env9 (ex_args [''s9'']) ex_st)) 12))
   \<and> entries (status (the (runs (snd (run ex_env9 (ex_args [''s9'']) ex_st)) 12)))
       = entries (status (ex_run SCHEDULED))
         @ [\<lparr>state = CANCELLED, note_str = ''terminated by user'', when_ts = 9\<rparr>]
   \<and> calls (snd (run ex_env9 (ex_args [''s9'']) ex_st))
       = [Cancel_job ''slurm'' 10, Cancel_job ''slurm'' 12]
   \<and> printed (snd (run ex_env9 (ex_args [''s9'']) ex_st))
       = [Test_cancelled 10, Test_could_not_be_cancelled 11 COMPLETE, Test_cancelled 12]"
proof -
  let ?a = "ex_args [''s9'']"
  have h: "startswith_s ''s9''" "get_pgid ex_env9 ''s9'' = Inr (Some 0)"
    "Some 0 = None \<or> Some (0::int) = Some 0" "from_id_tests ex_env9 ''s9'' = Inr [10, 11, 12]"
    by (simp_all add: startswith_s_def ex_env9_def)
  have t: "tests ?a = [''s9'']"
    by (simp add: ex_args_def)
  have d: "distinct [10, 11, 12 :: int]" "(12::int) \<in> set [10, 11, 12]"
    by simp_all
  have l: "list_all (\<lambda>n. runs ex_st n \<noteq> None) [10, 11, 12]"
    by (simp add: ex_defs)
  have g: "\<forall>n test. runs ex_st n = Some test \<longrightarrow> get_plugin ex_env9 (scheduler test) \<noteq> None"
    by (auto simp: ex_defs ex_env9_def split: if_splits)
  then have g': "\<forall>n. case runs ex_st n of None \<Rightarrow> True
            | Some test \<Rightarrow> get_plugin ex_env9 (scheduler test) \<noteq> None"
    by (simp split: option.splits)
  have m: "runs ex_st 12 = Some (ex_run SCHEDULED)"
    by (simp add: ex_defs)
  have p: "get_plugin ex_env9 (scheduler (ex_run SCHEDULED))
      = Some (\<lambda>test_id test. (CANCELLED, ''terminated by user''))"
    by (simp add: ex_defs ex_env9_def)
  have live: "state (current (status (ex_run SCHEDULED))) = SCHEDULED"
    by (simp add: ex_defs current_def)
  have hyp: "tests ?a = [''s9''] \<and> distinct [10, 11, 12 :: int]
      \<and> list_all (\<lambda>n. runs ex_st n \<noteq> None) [10, 11, 12]
      \<and> (\<forall>n test. runs ex_st n = Some test \<longrightarrow> get_plugin ex_env9 (scheduler test) \<noteq> None)
      \<and> 12 \<in> set [10, 11, 12 :: int] \<and> runs ex_st 12 = Some (ex_run SCHEDULED)
      \<and> get_plugin ex_env9 (scheduler (ex_run SCHEDULED))
          = Some (\<lambda>test_id test. (CANCELLED, ''terminated by user''))"
    using t d l g m p by blast
  note inst = C6_series_without_pgid [OF h, where a = ?a and m = 12 and s = ex_st
      and test = "ex_run SCHEDULED"
      and sched = "\<lambda>test_id test. (CANCELLED, ''terminated by user'')"]
  note each = inst [THEN conjunct2, THEN conjunct2, THEN conjunct2, THEN mp, OF hyp]
  from each live
  have c0: "fst (run ex_env9 ?a ex_st) = Return 0"
    and c1: "Cancel_job (scheduler (ex_run SCHEDULED)) 12 \<in> set (calls (snd (run ex_env9 ?a ex_st)))
      \<and> Test_cancelled 12 \<in> set (printed (snd (run ex_env9 ?a ex_st)))
      \<and> (\<exists>test1. runs (snd (run ex_env9 ?a ex_st)) 12 = Some test1 \<and> run_complete test1
           \<and> entries (status test1) = entries (status (ex_run SCHEDULED))
                @ [\<lparr>state = fst (CANCELLED, ''terminated by user''),
                    note_str = snd (CANCELLED, ''terminated by user''),
                    when_ts = clock ex_env9\<rparr>])"
    by simp_all
  from c1 obtain test1 where c: "fst (run ex_env9 ?a ex_st) = Return 0"
      "Cancel_job (scheduler (ex_run SCHEDULED)) 12 \<in> set (calls (snd (run ex_env9 ?a ex_st)))"
      "Test_cancelled 12 \<in> set (printed (snd (run ex_env9 ?a ex_st)))"
      "runs (snd (run ex_env9 ?a ex_st)) 12 = Some test1" "run_complete test1"
      "entries (status test1) = entries (status (ex_run SCHEDULED))
         @ [\<lparr>state = CANCELLED, note_str = ''terminated by user'', when_ts = clock ex_env9\<rparr>]"
    using c0 by auto
  have k: "clock ex_env9 = 9" "scheduler (ex_run SCHEDULED) = ''slurm''"
    by (simp_all add: ex_defs ex_env9_def)
  have ev: "calls (snd (run ex_env9 ?a ex_st)) = [Cancel_job ''slurm'' 10, Cancel_job ''slurm'' 12]"
    "printed (snd (run ex_env9 ?a ex_st))
       = [Test_cancelled 10, Test_could_not_be_cancelled 11 COMPLETE, Test_cancelled 12]"
    by (simp_all add: run_defs ex_defs ex_env9_def startswith_s_def)
  from h(1,2,4) t d(1) l g' m live c k ev show ?thesis
    by simp
qed

text \<open>
  Claim C7, as the code has it. The test list is flat and in the order of the identifiers:
  the members of each series and the number of each test id, one after the other. Nothing
  removes duplicates: a run id is in the list once for each time it is named, directly or
  as the member of a series named. The list is produced whenever every identifier resolves
  and no signal is refused.
\<close>

theorem C7_resolution_keeps_duplicates:
  "(resolve_loop e ids test_list s = (Inr test_list', s') \<longrightarrow>
      test_list' = test_list @ concat (map (run_ids e) ids)
      \<and> count_list test_list' n =
          count_list test_list n + sum_list (map (\<lambda>test_id. count_list (run_ids e test_id) n) ids))
   \<and> (list_all (\<lambda>test_id. resolution_failure e test_id = None) ids
        \<and> (\<forall>pgid. killpg e pgid \<noteq> PermissionError) \<longrightarrow>
      fst (resolve_loop e ids test_list s) = Inr (test_list @ concat (map (run_ids e) ids)))"
proof -
  have "test_list' = test_list @ concat (map (run_ids e) ids)
      \<and> count_list test_list' n =
          count_list test_list n + sum_list (map (\<lambda>test_id. count_list (run_ids e test_id) n) ids)"
    if "resolve_loop e ids test_list s = (Inr test_list', s')"
    using resolve_loop_Inr [OF that] by (simp add: count_list_concat comp_def)
  with resolve_loop_resolved [of e ids test_list s] show ?thesis
    by blast
qed

theorem C7_resolution_keeps_duplicates_witness:
  "resolve_loop ex_env [''s8'', ''42''] [] ex_st = (Inr [42, 42], ex_st)
   \<and> list_all (\<lambda>test_id. resolution_failure ex_env test_id = None) [''s8'', ''42'']
   \<and> (\<forall>pgid. killpg ex_env pgid \<noteq> PermissionError)
   \<and> [42, 42] = [] @ concat (map (run_ids ex_env) [''s8'', ''42''])
   \<and> count_list [42, 42 :: int] 42 = 2
   \<and> fst (resolve_loop ex_env [''s8'', ''42''] [] ex_st)
       = Inr ([] @ concat (map (run_ids ex_env) [''s8'', ''42'']))"
proof -
  have h1: "resolve_loop ex_env [''s8'', ''42''] [] ex_st = (Inr [42, 42], ex_st)"
    by (simp add: resolve_id_def kill_series_def ex_env_def py_int_42 startswith_s_def)
  have h2: "list_all (\<lambda>test_id. resolution_failure ex_env test_id = None) [''s8'', ''42'']"
    by (simp add: resolution_failure_def ex_env_def py_int_42 startswith_s_def)
  have h3: "\<forall>pgid. killpg ex_env pgid \<noteq> PermissionError"
    by (simp add: ex_env_def)
  have r: "run_ids ex_env ''s8'' = [42]" "run_ids ex_env ''42'' = [42]"
    by (simp_all add: run_ids_def ex_env_def py_int_42 startswith_s_def)
  note inst = C7_resolution_keeps_duplicates [where e = ex_env and ids = "[''s8'', ''42'']"
      and test_list = "[]" and s = ex_st and test_list' = "[42, 42]" and s' = ex_st and n = 42]
  from inst h1 have a: "[42, 42] = [] @ concat (map (run_ids ex_env) [''s8'', ''42''])"
    "count_list [42, 42 :: int] 42 = count_list [] (42 :: int)
       + sum_list (map (\<lambda>test_id. count_list (run_ids ex_env test_id) 42) [''s8'', ''42''])"
    by blast+
  from inst h2 h3 have b: "fst (resolve_loop ex_env [''s8'', ''42''] [] ex_st)
       = Inr ([] @ concat (map (run_ids ex_env) [''s8'', ''42'']))"
    by blast
  from a(2) have c: "count_list [42, 42 :: int] 42 = 2"
    by (simp add: r)
  from h1 h2 h3 a(1) b c show ?thesis by blast
qed

text \<open>
  Claim C7 as stated fails on \<open>42 42\<close> and on \<open>s8 42\<close>, where run 42 is the member of
  series \<open>s8\<close>: the test list is \<open>[42, 42]\<close>, with run 42 in it twice.
\<close>

theorem C7_duplicates_counterexample:
  "fst (resolve_loop ex_env [''42'', ''42''] [] ex_st) = Inr [42, 42]
   \<and> fst (resolve_loop ex_env [''s8'', ''42''] [] ex_st) = Inr [42, 42]
   \<and> \<not> distinct [42, 42 :: int]
   \<and> printed (snd (run ex_env (ex_args [''s8'', ''42'']) ex_st))
       = [Test_cancelled 42, Test_could_not_be_cancelled 42 CANCELLED]"
  by (simp add: run_defs ex_defs py_int_42 startswith_s_def)

text \<open>
  Claim C8. Whenever \<open>run\<close> returns, the value is 0 when every identifier resolves and
  every run id they stand for can be loaded, and \<open>EINVAL\<close>, which is not 0, otherwise.
  And \<open>run\<close> does return, rather than raise, when no signal is refused and the
  scheduler of every run is registered. The states of the runs play no part: a run that
  cannot be cancelled leaves the value 0.
\<close>

theorem C8_exit_status:
  "(fst (run e a s) = Return r \<longrightarrow>
      r = (if all_resolved e s (args_tests e a) then 0 else EINVAL))
   \<and> ((\<forall>pgid. killpg e pgid \<noteq> PermissionError)
        \<and> (\<forall>n test. runs s n = Some test \<longrightarrow> get_plugin e (scheduler test) \<noteq> None) \<longrightarrow>
      fst (run e a s) = Return (if all_resolved e s (args_tests e a) then 0 else EINVAL))
   \<and> EINVAL \<noteq> 0"
proof (intro conjI impI)
  let ?ids = "args_tests e a"
  obtain x s1 where r: "resolve_loop e ?ids [] s = (x, s1)"
    by (cases "resolve_loop e ?ids [] s")
  have s1: "runs s1 = runs s"
    using runs_resolve_loop [of e ?ids "[]" s] r by simp
  show "EINVAL \<noteq> 0" by (simp add: EINVAL_def)
  {
    assume ret: "fst (run e a s) = Return r"
    show "r = (if all_resolved e s ?ids then 0 else EINVAL)"
    proof (cases x)
      case (Inl ex)
      with r ret have "fst (resolve_loop e ?ids [] s) = Inl (Return r)"
        by (simp add: run_def run_tests_def)
      from resolve_loop_returned [OF this] show ?thesis
        by (simp add: all_resolved_def)
    next
      case (Inr test_list)
      from resolve_loop_Inr [OF r [unfolded Inr]] have tl: "test_list = concat (map (run_ids e) ?ids)"
        by simp
      from resolve_loop_Inr_resolved [OF r [unfolded Inr]]
      have ok: "list_all (\<lambda>i. resolution_failure e i = None) ?ids" .
      obtain y s2 where c: "cancel_loop e test_list [] s1 = (y, s2)"
        by (cases "cancel_loop e test_list [] s1")
      show ?thesis
      proof (cases y)
        case (Inl ex)
        with r Inr c ret have "fst (cancel_loop e test_list [] s1) = Inl (Return r)"
          by (simp add: run_def run_tests_def cancel_all_def)
        with cancel_loop_returned [of e test_list "[]" s1 "[]" r] s1 tl
        show ?thesis by (simp add: all_resolved_def)
      next
        case (Inr tol)
        with r \<open>x = Inr test_list\<close> c ret have "r = 0"
          by (simp add: run_def run_tests_def cancel_all_def print_statuses_def cancel_failed_def
              split: if_splits)
        moreover have "list_all (\<lambda>n. runs s n \<noteq> None) test_list"
          using cancel_loop_returned [of e test_list "[]" s1 tol r] c Inr s1 by simp
        ultimately show ?thesis using ok tl by (simp add: all_resolved_def)
      qed
    qed
  }
  {
    assume sys: "(\<forall>pgid. killpg e pgid \<noteq> PermissionError)
        \<and> (\<forall>n test. runs s n = Some test \<longrightarrow> get_plugin e (scheduler test) \<noteq> None)"
    show "fst (run e a s) = Return (if all_resolved e s ?ids then 0 else EINVAL)"
    proof (cases "list_all (\<lambda>i. resolution_failure e i = None) ?ids")
      case False
      from sys have k: "\<forall>pgid. killpg e pgid \<noteq> PermissionError" by simp
      from resolve_loop_unresolved [OF k False, of "[]" s] r False show ?thesis
        by (simp add: run_def run_tests_def all_resolved_def)
    next
      case True
      from sys have k: "\<forall>pgid. killpg e pgid \<noteq> PermissionError" by simp
      from resolve_loop_resolved [OF k True, of "[]" s] r
      have x: "x = Inr (concat (map (run_ids e) ?ids))" by simp
      have inv: "\<forall>n test. runs s1 n = Some test \<longrightarrow> get_plugin e (scheduler test) \<noteq> None"
        using sys s1 by simp
      obtain y s2 where c: "cancel_loop e (concat (map (run_ids e) ?ids)) [] s1 = (y, s2)"
        by (cases "cancel_loop e (concat (map (run_ids e) ?ids)) [] s1")
      with cancel_loop_outcome [OF inv, of "concat (map (run_ids e) ?ids)" "[]"] s1
      have "y = (if list_all (\<lambda>n. runs s n \<noteq> None) (concat (map (run_ids e) ?ids))
                 then Inr (concat (map (run_ids e) ?ids)) else Inl (Return EINVAL))"
        by simp
      with r x c True show ?thesis
        by (simp add: run_def run_tests_def cancel_all_def all_resolved_def print_statuses_def
            cancel_failed_def)
    qed
  }
qed

theorem C8_exit_status_witness:
  "(\<forall>pgid. killpg ex_env pgid \<noteq> PermissionError)
   \<and> (\<forall>n. case runs ex_st n of None \<Rightarrow> True
            | Some test \<Rightarrow> get_plugin ex_env (scheduler test) \<noteq> None)
   \<and> all_resolved ex_env ex_st (args_tests ex_env (ex_args [''s7'', ''7'']))
   \<and> fst (run ex_env (ex_args [''s7'', ''7'']) ex_st) = Return 0
   \<and> \<not> all_resolved ex_env ex_st (args_tests ex_env (ex_args [''99'', ''sX'']))
   \<and> fst (run ex_env (ex_args [''99'', ''sX'']) ex_st) = Return 22"
proof -
  have h1: "\<forall>pgid. killpg ex_env pgid \<noteq> PermissionError"
    by (simp add: ex_env_def)
  have h2: "\<forall>n test. runs ex_st n = Some test \<longrightarrow> get_plugin ex_env (scheduler test) \<noteq> None"
    by (auto simp: ex_defs split: if_splits)
  have a1: "all_resolved ex_env ex_st (args_tests ex_env (ex_args [''s7'', ''7'']))"
    by (simp add: all_resolved_def args_tests_def resolution_failure_def run_ids_def ex_defs
        py_int_7 startswith_s_def)
  have a2: "\<not> all_resolved ex_env ex_st (args_tests ex_env (ex_args [''99'', ''sX'']))"
    by (simp add: all_resolved_def args_tests_def resolution_failure_def run_ids_def ex_defs
        py_int_99 startswith_s_def)
  have c1: "fst (run ex_env (ex_args [''s7'', ''7'']) ex_st)
      = Return (if all_resolved ex_env ex_st (args_tests ex_env (ex_args [''s7'', ''7'']))
                then 0 else EINVAL)"
    using C8_exit_status [where e = ex_env and s = ex_st and a = "ex_args [''s7'', ''7'']"]
      h1 h2 by blast
  have c2: "fst (run ex_env (ex_args [''99'', ''sX'']) ex_st)
      = Return (if all_resolved ex_env ex_st (args_tests ex_env (ex_args [''99'', ''sX'']))
                then 0 else EINVAL)"
    using C8_exit_status [where e = ex_env and s = ex_st and a = "ex_args [''99'', ''sX'']"]
      h1 h2 by blast
  have r1: "fst (run ex_env (ex_args [''s7'', ''7'']) ex_st) = Return 0"
    unfolding c1 using a1 by simp
  have r2: "fst (run ex_env (ex_args [''99'', ''sX'']) ex_st) = Return 22"
    unfolding c2 using a2 by (simp add: EINVAL_def)
  have h2': "\<forall>n. case runs ex_st n of None \<Rightarrow> True
            | Some test \<Rightarrow> get_plugin ex_env (scheduler test) \<noteq> None"
    using h2 by (simp split: option.splits)
  from h1 h2' a1 a2 r1 r2 show ?thesis
    by blast
qed

text \<open>
  Claim C9. With no identifier and without \<open>--all\<close>, the command reads the user's last
  series: when there is one, \<open>run\<close> is \<open>run\<close> with that series as its only
  identifier; when there is none, \<open>run\<close> returns 0 and the state is as before.
\<close>

theorem C9_latest_series_default:
  assumes "tests a = []" and "\<not> all_arg a"
  shows "(load_user_series_id e = Some series_id \<longrightarrow>
            run e a s = run e (a\<lparr>tests := [series_id]\<rparr>) s)
     \<and> (load_user_series_id e = None \<longrightarrow> run e a s = (Return 0, s))"
  using assms
  by (simp add: run_def args_tests_def run_tests_tests_update run_tests_nothing)

theorem C9_latest_series_default_witness:
  "tests (ex_args []) = [] \<and> \<not> all_arg (ex_args [])
   \<and> load_user_series_id ex_env = Some ''s7''
   \<and> run ex_env (ex_args []) ex_st = run ex_env (ex_args [''s7'']) ex_st
   \<and> load_user_series_id (ex_env\<lparr>load_user_series_id := None\<rparr>) = None
   \<and> run (ex_env\<lparr>load_user_series_id := None\<rparr>) (ex_args []) ex_st = (Return 0, ex_st)"
proof -
  have h: "tests (ex_args []) = []" "\<not> all_arg (ex_args [])"
    by (simp_all add: ex_args_def)
  have l: "load_user_series_id ex_env = Some ''s7''"
    "load_user_series_id (ex_env\<lparr>load_user_series_id := None\<rparr>) = None"
    by (simp_all add: ex_env_def)
  have u: "(ex_args [])\<lparr>tests := [''s7'']\<rparr> = ex_args [''s7'']"
    by (simp add: ex_args_def)
  from C9_latest_series_default [OF h, where e = ex_env and series_id = "''s7''" and s = ex_st]
    C9_latest_series_default [OF h, where e = "ex_env\<lparr>load_user_series_id := None\<rparr>"
      and series_id = "''s7''" and s = ex_st]
    h l u show ?thesis by simp
qed

text \<open>
  Claim C10. With no identifier and with \<open>--all\<close>, the identifiers the command works
  on are the names of the entries of \<open>test_runs\<close>, in the order of the listing, whose
  owner is the effective user and that hold no \<open>RUN_COMPLETE\<close> file, and no others.
\<close>

theorem C10_cancel_all_selection:
  assumes "tests a = []" and "all_arg a"
  shows "args_tests e a =
       map name (filter (\<lambda>test. st_uid test = euid e \<and> \<not> has_RUN_COMPLETE test)
         (test_runs_dir e))
     \<and> run e a s =
       run_tests e a
         (map name (filter (\<lambda>test. st_uid test = euid e \<and> \<not> has_RUN_COMPLETE test)
           (test_runs_dir e))) s"
  using assms by (simp add: run_def args_tests_def iterdir_loop_filter)

theorem C10_cancel_all_selection_witness:
  "tests (ex_args [] \<lparr>all_arg := True\<rparr>) = [] \<and> all_arg (ex_args [] \<lparr>all_arg := True\<rparr>)
   \<and> args_tests ex_env (ex_args [] \<lparr>all_arg := True\<rparr>) = [''42'', ''7'']
   \<and> run ex_env (ex_args [] \<lparr>all_arg := True\<rparr>) ex_st
       = run_tests ex_env (ex_args [] \<lparr>all_arg := True\<rparr>) [''42'', ''7''] ex_st"
proof -
  have h: "tests (ex_args [] \<lparr>all_arg := True\<rparr>) = []" "all_arg (ex_args [] \<lparr>all_arg := True\<rparr>)"
    by (simp_all add: ex_args_def)
  have f: "map name (filter (\<lambda>test. st_uid test = euid ex_env \<and> \<not> has_RUN_COMPLETE test)
         (test_runs_dir ex_env)) = [''42'', ''7'']"
    by (simp add: ex_env_def)
  from C10_cancel_all_selection [OF h, where e = ex_env and s = ex_st] h show ?thesis
    unfolding f by simp
qed

end
